theory Spec2Isabelle
  imports Main
begin

section \<open>The syntax tree as SILGen.cpp reads it\<close>

text \<open>
  SILGen.cpp drives the lowering of a type-checked syntax tree to SIL. It consults
  only a few attributes of each tree node; the types below carry exactly those.
  A pointer to a node is modelled by the node itself, and two nodes are told apart
  by their identifiers.
\<close>

datatype Type =
    TupleType "Type list"
  | NominalType string
  | LValueType Type
  | FunctionType Type Type
  | PolymorphicFunctionType Type Type

type_synonym SILType = Type

text \<open>
  Modelled from the spec: the type-lowering service reports whether a type is the
  empty (void) type. \<open>Type::isVoid\<close> holds of the empty tuple.
\<close>

definition isVoid :: "Type \<Rightarrow> bool" where
  "isVoid t = (t = TupleType [])"

text \<open>\<open>SILType::is<PolymorphicFunctionType>()\<close>.\<close>

fun isPolymorphicFunctionType :: "SILType \<Rightarrow> bool" where
  "isPolymorphicFunctionType (PolymorphicFunctionType a r) = True"
| "isPolymorphicFunctionType t = False"

text \<open>
  A declaration context is a chain that ends in a module. Every context below the
  module is either a local one (the body of a function, closure, constructor,
  destructor or top-level code) or a type context (a nominal type or an extension).
\<close>

datatype ModuleKind = TranslationUnit | BuiltinModule | ClangModule

datatype ContextKind = LocalContext | TypeContext

datatype DeclContext =
    ModuleContext ModuleKind
  | ChildContext ContextKind DeclContext

fun isLocalContext :: "DeclContext \<Rightarrow> bool" where
  "isLocalContext (ChildContext LocalContext p) = True"
| "isLocalContext dc = False"

fun isTypeContext :: "DeclContext \<Rightarrow> bool" where
  "isTypeContext (ChildContext TypeContext p) = True"
| "isTypeContext dc = False"

text \<open>\<open>isa<ClangModule>(dc)\<close>.\<close>

fun isClangModule :: "DeclContext \<Rightarrow> bool" where
  "isClangModule (ModuleContext ClangModule) = True"
| "isClangModule dc = False"

type_synonym SourceLoc = "nat option"

record Expr =
  exprId :: nat
  exprType :: Type

text \<open>
  Parameter patterns. A tuple pattern lists its fields, each a sub-pattern with an
  optional default initializer (\<open>elt.getInit()\<close>).
\<close>

datatype Pattern =
    TuplePattern "(Pattern \<times> Expr option) list"
  | ParenPattern Pattern
  | TypedPattern Pattern
  | NamedPattern nat
  | AnyPattern

text \<open>
  Parentheses and type annotations are wrappers around the pattern that provides
  the semantics; \<open>withoutWrappers\<close> removes them.
\<close>

fun withoutWrappers :: "Pattern \<Rightarrow> Pattern" where
  "withoutWrappers (ParenPattern p) = withoutWrappers p"
| "withoutWrappers (TypedPattern p) = withoutWrappers p"
| "withoutWrappers p = p"

text \<open>
  A function expression: \<open>feDecl\<close> is the declaration context of \<open>fe->getDecl()\<close>
  (\<open>None\<close> when the expression has no declaration), \<open>feBody\<close> the brace statement
  (\<open>None\<close> for a prototype).
\<close>

record FuncExpr =
  feId :: nat
  feDecl :: "DeclContext option"
  getArgParamPatterns :: "Pattern list"
  feBody :: "nat option"
  feResultType :: Type

record PipeClosureExpr =
  pceId :: nat
  pceBody :: nat
  pceResultType :: Type

record ClosureExpr =
  ceId :: nat
  ceBody :: nat

datatype DeclKind =
    FuncDeclKind bool bool FuncExpr
  | ConstructorDeclKind
  | SubscriptDeclKind
  | VarDeclKind bool bool
  | ClassDeclKind
  | OtherDeclKind

record ValueDecl =
  declId :: nat
  declKind :: DeclKind
  declLoc :: SourceLoc
  getDeclContext :: DeclContext

text \<open>
  The attributes of a \<open>FuncDecl\<close> (\<open>isGetterOrSetter\<close>, \<open>isInstanceMember\<close>,
  \<open>getBody\<close>) and of a \<open>VarDecl\<close> (\<open>isProperty\<close>, \<open>isSettable\<close>).
\<close>

definition isFuncDecl :: "ValueDecl \<Rightarrow> bool" where
  "isFuncDecl d = (case declKind d of FuncDeclKind g i fe \<Rightarrow> True | _ \<Rightarrow> False)"

definition isGetterOrSetter :: "ValueDecl \<Rightarrow> bool" where
  "isGetterOrSetter d = (case declKind d of FuncDeclKind g i fe \<Rightarrow> g | _ \<Rightarrow> False)"

definition isInstanceMember :: "ValueDecl \<Rightarrow> bool" where
  "isInstanceMember d = (case declKind d of FuncDeclKind g i fe \<Rightarrow> i | _ \<Rightarrow> False)"

definition isProperty :: "ValueDecl \<Rightarrow> bool" where
  "isProperty d = (case declKind d of VarDeclKind p s \<Rightarrow> p | _ \<Rightarrow> False)"

definition isSettable :: "ValueDecl \<Rightarrow> bool" where
  "isSettable d = (case declKind d of VarDeclKind p s \<Rightarrow> s | _ \<Rightarrow> False)"

text \<open>
  A constructor declaration: its argument pattern and whether the type of its
  implicit \<open>this\<close> is a class (\<open>getClassOrBoundGenericClass()\<close> is not null).
\<close>

record ConstructorDecl =
  cdDecl :: ValueDecl
  getArguments :: Pattern
  cdBody :: nat
  thisIsClass :: bool

record DestructorDecl =
  ddId :: nat
  ddBody :: nat

record PatternBindingDecl =
  pbdId :: nat
  pbdInit :: "Expr option"

section \<open>Declaration references\<close>

text \<open>
  \<open>SILDeclRef::Loc\<close> is a union of pointers: a value declaration or one of the
  anonymous function forms.
\<close>

datatype Loc =
    LocValueDecl ValueDecl
  | LocFuncExpr FuncExpr
  | LocPipeClosureExpr PipeClosureExpr
  | LocClosureExpr ClosureExpr

datatype Kind =
  Func | Getter | Setter | Allocator | Initializer | Destroyer | DefaultArgGenerator

record SILDeclRef =
  loc :: Loc
  kind :: Kind
  uncurryLevel :: nat
  isObjC :: bool
  defaultArgIndex :: nat

text \<open>
  Modelled from the spec: the constructors of \<open>SILDeclRef\<close> are declared outside
  this file. The spec gives a reference an underlying declaration, a kind tag, an
  uncurry level (how many argument lists remain to be applied) and a
  foreign-visibility flag, names the allocating half as the reference of a
  constructor, and lets a function with three curried argument lists start at
  uncurry level 2. The natural uncurry level of a function is therefore one less
  than the number of its argument lists; every other location starts at level 0.
\<close>

fun naturalUncurryLevel :: "Loc \<Rightarrow> nat" where
  "naturalUncurryLevel (LocValueDecl d) =
     (case declKind d of
        FuncDeclKind g i fe \<Rightarrow> length (getArgParamPatterns fe) - 1
      | _ \<Rightarrow> 0)"
| "naturalUncurryLevel (LocFuncExpr fe) = length (getArgParamPatterns fe) - 1"
| "naturalUncurryLevel l = 0"

fun naturalKind :: "Loc \<Rightarrow> Kind" where
  "naturalKind (LocValueDecl d) =
     (case declKind d of ConstructorDeclKind \<Rightarrow> Allocator | _ \<Rightarrow> Func)"
| "naturalKind l = Func"

text \<open>\<open>SILDeclRef(loc, kind, ConstructAtNaturalUncurryLevel, isObjC)\<close>.\<close>

definition mkSILDeclRef :: "Loc \<Rightarrow> Kind \<Rightarrow> bool \<Rightarrow> SILDeclRef" where
  "mkSILDeclRef l k objc =
     \<lparr>loc = l, kind = k, uncurryLevel = naturalUncurryLevel l, isObjC = objc,
      defaultArgIndex = 0\<rparr>"

text \<open>\<open>SILDeclRef constant(decl)\<close>.\<close>

definition declRef :: "Loc \<Rightarrow> SILDeclRef" where
  "declRef l = mkSILDeclRef l (naturalKind l) False"

text \<open>\<open>SILDeclRef::getDefaultArgGenerator(decl, index)\<close>.\<close>

definition getDefaultArgGenerator :: "Loc \<Rightarrow> nat \<Rightarrow> SILDeclRef" where
  "getDefaultArgGenerator l i =
     \<lparr>loc = l, kind = DefaultArgGenerator, uncurryLevel = 0, isObjC = False,
      defaultArgIndex = i\<rparr>"

text \<open>\<open>constant.atUncurryLevel(level)\<close>.\<close>

definition atUncurryLevel :: "SILDeclRef \<Rightarrow> nat \<Rightarrow> SILDeclRef" where
  "atUncurryLevel c l = c\<lparr>uncurryLevel := l\<rparr>"

section \<open>Linkage\<close>

datatype SILLinkage = Internal | External | ClangThunk

text \<open>
  The loop of \<open>SILGenModule::getConstantLinkage\<close>: walk outward until the module
  context; a local context on the way ends the walk with \<open>None\<close> (the function
  returns internal linkage there), otherwise the module context is returned.
  A reference has a declaration (\<open>hasDecl()\<close>) exactly when its location is a
  value declaration.
\<close>

fun walkToModule :: "DeclContext \<Rightarrow> DeclContext option" where
  "walkToModule (ModuleContext m) = Some (ModuleContext m)"
| "walkToModule (ChildContext k p) =
     (if isLocalContext (ChildContext k p) then None else walkToModule p)"

definition getConstantLinkage :: "SILDeclRef \<Rightarrow> SILLinkage" where
  "getConstantLinkage constant =
     (case loc constant of
        LocValueDecl d \<Rightarrow>
          (case walkToModule (getDeclContext d) of
             None \<Rightarrow> Internal
           | Some dc \<Rightarrow>
               if isClangModule dc \<and>
                  (declKind d = ConstructorDeclKind \<or>
                   declKind d = SubscriptDeclKind \<or>
                   isProperty d)
               then ClangThunk
               else External)
      | _ \<Rightarrow> Internal)"

text \<open>
  The wording of the specification, to compare the loop with: the contexts that
  enclose a declaration, innermost first and up to the module, and the module at
  the end of the chain.
\<close>

fun enclosingContexts :: "DeclContext \<Rightarrow> DeclContext list" where
  "enclosingContexts (ModuleContext m) = []"
| "enclosingContexts (ChildContext k p) = ChildContext k p # enclosingContexts p"

fun enclosingModule :: "DeclContext \<Rightarrow> DeclContext" where
  "enclosingModule (ModuleContext m) = ModuleContext m"
| "enclosingModule (ChildContext k p) = enclosingModule p"

definition inLocalScope :: "ValueDecl \<Rightarrow> bool" where
  "inLocalScope d = list_ex isLocalContext (enclosingContexts (getDeclContext d))"

definition isForeignThunkDecl :: "ValueDecl \<Rightarrow> bool" where
  "isForeignThunkDecl d =
     (isClangModule (enclosingModule (getDeclContext d)) \<and>
      (declKind d = ConstructorDeclKind \<or> declKind d = SubscriptDeclKind \<or>
       isProperty d))"

definition specLinkage :: "SILDeclRef \<Rightarrow> SILLinkage" where
  "specLinkage c =
     (case loc c of
        LocValueDecl d \<Rightarrow>
          if inLocalScope d then Internal
          else if isForeignThunkDecl d then ClangThunk
          else External
      | _ \<Rightarrow> Internal)"

section \<open>Failure\<close>

text \<open>
  The file leaves by two doors besides returning: a failed \<open>assert\<close>, and a
  diagnostic followed by \<open>exit(1)\<close>. Both are values here. A diagnostic carries
  its source location, its kind and its two arguments (module and function name).
\<close>

datatype Diag =
    bridging_module_missing
  | bridging_function_missing
  | bridging_function_overloaded
  | bridging_function_not_function
  | bridging_function_not_correct_type

datatype Error =
    AssertionFailed string
  | VerificationFailed
  | FatalDiagnostic SourceLoc Diag string string

definition bindE :: "Error + 'a \<Rightarrow> ('a \<Rightarrow> Error + 'b) \<Rightarrow> Error + 'b" where
  "bindE m k = (case m of Inl e \<Rightarrow> Inl e | Inr x \<Rightarrow> k x)"

section \<open>SIL functions and SILGenFunction\<close>

datatype ASTNode =
    FuncExprNode FuncExpr
  | PipeClosureExprNode PipeClosureExpr
  | ClosureExprNode ClosureExpr
  | ConstructorDeclNode ConstructorDecl
  | DestructorDeclNode DestructorDecl
  | ExprNode Expr
  | VarDeclNode ValueDecl
  | BodyNode nat

text \<open>A \<open>SILLocation\<close> wraps a node pointer; \<open>SILLocation()\<close> is \<open>None\<close>.\<close>

type_synonym SILLocation = "ASTNode option"

fun getFuncBodySILLocation :: "SILLocation \<Rightarrow> SILLocation" where
  "getFuncBodySILLocation (Some (FuncExprNode fe)) = map_option BodyNode (feBody fe)"
| "getFuncBodySILLocation (Some (PipeClosureExprNode ce)) = Some (BodyNode (pceBody ce))"
| "getFuncBodySILLocation (Some (ClosureExprNode ce)) = Some (BodyNode (ceBody ce))"
| "getFuncBodySILLocation (Some (ConstructorDeclNode cd)) = Some (BodyNode (cdBody cd))"
| "getFuncBodySILLocation (Some (DestructorDeclNode dd)) = Some (BodyNode (ddBody dd))"
| "getFuncBodySILLocation l = None"

type_synonym Cleanup = nat

datatype SILValue = EmptyTupleValue | OtherValue nat

datatype SILInstruction =
    TupleInst SILLocation "SILValue list"
  | ReturnInst SILLocation SILValue
  | UnreachableInst SILLocation
  | CleanupInst Cleanup
  | OtherInst nat

text \<open>
  A SIL function: a basic block is the list of its instructions; a function with
  no block is a bare declaration (\<open>empty()\<close>, \<open>isExternalDeclaration()\<close>).
\<close>

record SILFunction =
  linkage :: SILLinkage
  fname :: string
  loweredType :: SILType
  blocks :: "SILInstruction list list"
  debugScope :: "SILLocation option"
  location :: SILLocation

text \<open>
  The state of one \<open>SILGenFunction\<close>. \<open>F\<close> is the function under construction
  (the source holds it by reference; here it travels in the record and is stored
  back when the object dies), \<open>B\<close> the builder's insertion block (\<open>None\<close> when
  the insertion point is not valid), \<open>Cleanups\<close> the cleanup stack with the most
  recently pushed action first.
\<close>

record SILGenFunction =
  F :: SILFunction
  B :: "nat option"
  Cleanups :: "Cleanup list"
  hasVoidReturn :: bool
  epilogBB :: "nat option"

text \<open>The constructor appends a fresh basic block to the function and points the
  builder at it.\<close>

definition SILGenFunction_new :: "SILFunction \<Rightarrow> bool \<Rightarrow> SILGenFunction" where
  "SILGenFunction_new f hv =
     \<lparr>F = f\<lparr>blocks := blocks f @ [[]]\<rparr>, B = Some (length (blocks f)),
      Cleanups = [], hasVoidReturn = hv, epilogBB = None\<rparr>"

definition hasValidInsertionPoint :: "SILGenFunction \<Rightarrow> bool" where
  "hasValidInsertionPoint g = (B g \<noteq> None)"

text \<open>
  Modelled from the spec: the builder and the cleanup manager are defined outside
  this file. Section 4.2: \<open>insert\<close> appends to the current block and fails when
  there is no valid insertion point; inserting a terminator invalidates the
  insertion point. Section 4.3: \<open>push\<close> records an action; the actions are emitted
  in reverse (LIFO) order at the insertion point and removed;
  \<open>emitReturnAndCleanups\<close> pops the entire stack, the cleanups running after the
  result value is materialized and before the return.
\<close>

definition insertInst :: "SILInstruction \<Rightarrow> SILGenFunction \<Rightarrow> Error + SILGenFunction" where
  "insertInst i g =
     (case B g of
        None \<Rightarrow> Inl (AssertionFailed ''no insertion point'')
      | Some b \<Rightarrow>
          Inr (g\<lparr>F := (F g)\<lparr>blocks := (blocks (F g))[b := blocks (F g) ! b @ [i]]\<rparr>\<rparr>))"

definition insertTerminator :: "SILInstruction \<Rightarrow> SILGenFunction \<Rightarrow> Error + SILGenFunction" where
  "insertTerminator i g = bindE (insertInst i g) (\<lambda>g'. Inr (g'\<lparr>B := None\<rparr>))"

definition createUnreachable :: "SILLocation \<Rightarrow> SILGenFunction \<Rightarrow> Error + SILGenFunction" where
  "createUnreachable l g = insertTerminator (UnreachableInst l) g"

definition createReturn :: "SILLocation \<Rightarrow> SILValue \<Rightarrow> SILGenFunction \<Rightarrow> Error + SILGenFunction" where
  "createReturn l v g = insertTerminator (ReturnInst l v) g"

definition emitEmptyTuple :: "SILLocation \<Rightarrow> SILGenFunction \<Rightarrow> Error + (SILValue \<times> SILGenFunction)" where
  "emitEmptyTuple l g = bindE (insertInst (TupleInst l []) g) (\<lambda>g'. Inr (EmptyTupleValue, g'))"

definition pushCleanup :: "Cleanup \<Rightarrow> SILGenFunction \<Rightarrow> SILGenFunction" where
  "pushCleanup a g = g\<lparr>Cleanups := a # Cleanups g\<rparr>"

fun emitCleanups :: "Cleanup list \<Rightarrow> SILGenFunction \<Rightarrow> Error + SILGenFunction" where
  "emitCleanups [] g = Inr g"
| "emitCleanups (a # as) g = bindE (insertInst (CleanupInst a) g) (emitCleanups as)"

definition emitReturnAndCleanups :: "SILLocation \<Rightarrow> SILValue \<Rightarrow> SILGenFunction \<Rightarrow> Error + SILGenFunction" where
  "emitReturnAndCleanups l v g =
     bindE (emitCleanups (Cleanups g) g)
       (\<lambda>g'. createReturn l v (g'\<lparr>Cleanups := []\<rparr>))"

text \<open>
  The destructor of \<open>SILGenFunction\<close>, run after the whole function has been
  visited: falling off the end of the function.
\<close>

definition SILGenFunction_delete :: "SILGenFunction \<Rightarrow> Error + SILGenFunction" where
  "SILGenFunction_delete g =
     (if \<not> hasValidInsertionPoint g then Inr g
      else if hasVoidReturn g then
        (if epilogBB g \<noteq> None then Inl (AssertionFailed ''epilog bb not terminated?!'')
         else bindE (emitEmptyTuple None g)
                (\<lambda>(emptyTuple, g'). emitReturnAndCleanups None emptyTuple g'))
      else createUnreachable (getFuncBodySILLocation (location (F g))) g)"

text \<open>What the destructor leaves in the insertion block in its two cases.\<close>

definition appendToBlock :: "nat \<Rightarrow> SILInstruction list \<Rightarrow> SILGenFunction \<Rightarrow> SILGenFunction" where
  "appendToBlock b is g =
     g\<lparr>F := (F g)\<lparr>blocks := (blocks (F g))[b := blocks (F g) ! b @ is]\<rparr>\<rparr>"

definition impliedReturn :: "Cleanup list \<Rightarrow> SILInstruction list" where
  "impliedReturn cs =
     TupleInst None [] # map CleanupInst cs @ [ReturnInst None EmptyTupleValue]"

section \<open>SILGenModule\<close>

text \<open>
  What one \<open>SILGenFunction\<close> is asked to emit: the member function called on the
  freshly constructed object, with its arguments.
\<close>

datatype EmitJob =
    EmitFunction FuncExpr
  | EmitCurryThunk FuncExpr SILDeclRef SILDeclRef
  | EmitClassConstructorAllocator ConstructorDecl
  | EmitClassConstructorInitializer ConstructorDecl
  | EmitValueConstructor ConstructorDecl
  | EmitPipeClosure PipeClosureExpr
  | EmitClosure ClosureExpr
  | EmitDestructor ValueDecl "DestructorDecl option"
  | EmitGeneratorFunction SILDeclRef Expr
  | EmitObjCMethodThunk SILDeclRef
  | EmitObjCPropertyGetter SILDeclRef
  | EmitObjCPropertySetter SILDeclRef

datatype LookupResult = ValueDeclResult ValueDecl | OtherResult nat

record UnqualifiedLookup =
  Results :: "LookupResult list"

text \<open>
  The services SILGen.cpp calls and does not define: the pattern that provides
  the semantics of a sugared pattern, type lowering, name mangling, name lookup
  in a module, the SIL verifier, and the tree walkers of
  \<open>SILGenFunction\<close> that emit the instructions of a body. They are parameters of
  the model: every theorem below holds for all of them. A tree walker sees and
  changes the state of its \<open>SILGenFunction\<close> only.
\<close>

record Frontend =
  getSemanticsProvidingPattern :: "Pattern \<Rightarrow> Pattern"
  getLoweredType :: "Type \<Rightarrow> SILType"
  getConstantType :: "SILDeclRef \<Rightarrow> SILType"
  getFunctionTypeInfo :: "SILType \<Rightarrow> SILType list \<times> SILType"
  mangleConstant :: "SILDeclRef \<Rightarrow> string"
  forModuleAndName :: "string \<Rightarrow> string \<Rightarrow> UnqualifiedLookup option"
  verify :: "SILFunction \<Rightarrow> bool"
  emitBody :: "EmitJob \<Rightarrow> SILGenFunction \<Rightarrow> SILGenFunction"
  visitTopLevel :: "PatternBindingDecl \<Rightarrow> SILGenFunction \<Rightarrow> SILGenFunction"

text \<open>
  The trace of a session, in order: each declaration reference whose lowering was
  started (the point where \<open>preEmitFunction\<close> prints ``lowering'' to the debug
  stream), each \<open>SILGenFunction\<close> that ran (its \<open>hasVoidReturn\<close> flag and its
  job), and each pattern binding handed to the top-level \<open>SILGenFunction\<close>.
\<close>

datatype Event =
    Lowering SILDeclRef
  | RanSILGenFunction bool EmitJob
  | VisitedTopLevel PatternBindingDecl

text \<open>
  The state of the module generator. \<open>Mfunctions\<close> and \<open>Mglobals\<close> are the
  function list and the globals of the SIL module \<open>M\<close>; a \<open>SILFunction*\<close> is a
  position in \<open>Mfunctions\<close>, where a new function is appended.
  \<open>emittedFunctions\<close> is the cache from declaration references to those pointers.
\<close>

record SILGenModule =
  Mfunctions :: "SILFunction list"
  Mglobals :: "ValueDecl set"
  emittedFunctions :: "SILDeclRef \<Rightarrow> nat option"
  TopLevelSGF :: "SILGenFunction option"
  trace :: "Event list"

definition emitTopLevelFunction :: "Frontend \<Rightarrow> SILFunction" where
  "emitTopLevelFunction env =
     \<lparr>linkage = Internal, fname = ''top_level_code'',
      loweredType = getLoweredType env (FunctionType (TupleType []) (TupleType [])),
      blocks = [], debugScope = None, location = None\<rparr>"

text \<open>
  The module generator as its constructor leaves it: \<open>top_level_code\<close> is the
  only function of the module, and the top-level \<open>SILGenFunction\<close> constructed on
  it has appended the entry block.
\<close>

definition SILGenModule_new :: "Frontend \<Rightarrow> SILGenModule" where
  "SILGenModule_new env =
     (let toplevel = (emitTopLevelFunction env)\<lparr>debugScope := Some None\<rparr>;
          sgf = SILGenFunction_new toplevel True
      in \<lparr>Mfunctions = [F sgf], Mglobals = {}, emittedFunctions = (\<lambda>c. None),
          TopLevelSGF = Some sgf, trace = []\<rparr>)"

definition getFunction :: "Frontend \<Rightarrow> SILDeclRef \<Rightarrow> SILGenModule \<Rightarrow> nat \<times> SILGenModule" where
  "getFunction env constant s =
     (case emittedFunctions s constant of
        Some found \<Rightarrow> (found, s)
      | None \<Rightarrow>
          (length (Mfunctions s),
           s\<lparr>Mfunctions := Mfunctions s @
                [\<lparr>linkage = getConstantLinkage constant,
                  fname = mangleConstant env constant,
                  loweredType = getConstantType env constant,
                  blocks = [], debugScope = None, location = None\<rparr>],
             emittedFunctions := (emittedFunctions s)(constant := Some (length (Mfunctions s)))\<rparr>))"

definition hasFunction :: "SILGenModule \<Rightarrow> SILDeclRef \<Rightarrow> bool" where
  "hasFunction s constant = (emittedFunctions s constant \<noteq> None)"

definition preEmitFunction ::
  "Frontend \<Rightarrow> SILDeclRef \<Rightarrow> SILLocation \<Rightarrow> SILGenModule \<Rightarrow> Error + (nat \<times> SILGenModule)" where
  "preEmitFunction env constant astNode s =
     (case getFunction env constant s of
        (f, s1) \<Rightarrow>
          if blocks (Mfunctions s1 ! f) \<noteq> [] then Inl (AssertionFailed ''already emitted function?!'')
          else Inr (f, s1\<lparr>Mfunctions := (Mfunctions s1)
                      [f := (Mfunctions s1 ! f)\<lparr>debugScope := Some astNode, location := astNode\<rparr>],
                    trace := trace s1 @ [Lowering constant]\<rparr>))"

definition postEmitFunction ::
  "Frontend \<Rightarrow> SILDeclRef \<Rightarrow> nat \<Rightarrow> SILGenModule \<Rightarrow> Error + SILGenModule" where
  "postEmitFunction env constant f s =
     (if blocks (Mfunctions s ! f) = [] then Inl (AssertionFailed ''did not emit any function body?!'')
      else if \<not> verify env (Mfunctions s ! f) then Inl VerificationFailed
      else Inr s)"

text \<open>
  The statement \<open>SILGenFunction(*this, *f, hasVoidReturn).emitX(...)\<close>: a temporary
  is constructed on the function, the tree walker runs, and the temporary is
  destroyed.
\<close>

definition runSILGenFunction ::
  "Frontend \<Rightarrow> nat \<Rightarrow> bool \<Rightarrow> EmitJob \<Rightarrow> SILGenModule \<Rightarrow> Error + SILGenModule" where
  "runSILGenFunction env f hv job s =
     bindE (SILGenFunction_delete (emitBody env job (SILGenFunction_new (Mfunctions s ! f) hv)))
       (\<lambda>g. Inr (s\<lparr>Mfunctions := (Mfunctions s)[f := F g],
                   trace := trace s @ [RanSILGenFunction hv job]\<rparr>))"

definition emitDefaultArgGenerator ::
  "Frontend \<Rightarrow> SILDeclRef \<Rightarrow> Expr \<Rightarrow> SILGenModule \<Rightarrow> Error + SILGenModule" where
  "emitDefaultArgGenerator env constant arg s =
     bindE (preEmitFunction env constant (Some (ExprNode arg)) s) (\<lambda>(f, s1).
     bindE (runSILGenFunction env f (isVoid (exprType arg)) (EmitGeneratorFunction constant arg) s1)
       (postEmitFunction env constant f))"

text \<open>
  The two loops of \<open>emitDefaultArgGenerators\<close>: the inner one over the fields of a
  tuple pattern, the outer one over the patterns; \<open>index\<close> runs through both.
\<close>

fun emitFieldGenerators ::
  "Frontend \<Rightarrow> Loc \<Rightarrow> nat \<Rightarrow> (Pattern \<times> Expr option) list \<Rightarrow> SILGenModule
   \<Rightarrow> Error + (nat \<times> SILGenModule)" where
  "emitFieldGenerators env decl index [] s = Inr (index, s)"
| "emitFieldGenerators env decl index (elt # elts) s =
     (case snd elt of
        Some arg \<Rightarrow>
          bindE (emitDefaultArgGenerator env (getDefaultArgGenerator decl index) arg s)
            (emitFieldGenerators env decl (index + 1) elts)
      | None \<Rightarrow> emitFieldGenerators env decl (index + 1) elts s)"

fun emitPatternGenerators ::
  "Frontend \<Rightarrow> Loc \<Rightarrow> nat \<Rightarrow> Pattern list \<Rightarrow> SILGenModule \<Rightarrow> Error + SILGenModule" where
  "emitPatternGenerators env decl index [] s = Inr s"
| "emitPatternGenerators env decl index (pattern # patterns) s =
     (case getSemanticsProvidingPattern env pattern of
        TuplePattern elts \<Rightarrow>
          bindE (emitFieldGenerators env decl index elts s)
            (\<lambda>(index', s'). emitPatternGenerators env decl index' patterns s')
      | _ \<Rightarrow> emitPatternGenerators env decl (index + 1) patterns s)"

definition emitDefaultArgGenerators ::
  "Frontend \<Rightarrow> Loc \<Rightarrow> Pattern list \<Rightarrow> SILGenModule \<Rightarrow> Error + SILGenModule" where
  "emitDefaultArgGenerators env decl patterns s = emitPatternGenerators env decl 0 patterns s"

definition emitCurryThunk ::
  "Frontend \<Rightarrow> SILDeclRef \<Rightarrow> SILDeclRef \<Rightarrow> FuncExpr \<Rightarrow> SILGenModule \<Rightarrow> Error + SILGenModule" where
  "emitCurryThunk env entryPoint nextEntryPoint fe s =
     bindE (preEmitFunction env entryPoint (Some (FuncExprNode fe)) s) (\<lambda>(f, s1).
     bindE (runSILGenFunction env f (isVoid (feResultType fe))
              (EmitCurryThunk fe entryPoint nextEntryPoint) s1)
       (postEmitFunction env entryPoint f))"

text \<open>The loop \<open>while (level-- > 0)\<close> at the end of \<open>emitFunction\<close>.\<close>

fun emitCurryThunks ::
  "Frontend \<Rightarrow> FuncExpr \<Rightarrow> nat \<Rightarrow> SILDeclRef \<Rightarrow> SILGenModule \<Rightarrow> Error + SILGenModule" where
  "emitCurryThunks env fe 0 constant s = Inr s"
| "emitCurryThunks env fe (Suc level) constant s =
     bindE (emitCurryThunk env (atUncurryLevel constant level) constant fe s)
       (emitCurryThunks env fe level (atUncurryLevel constant level))"

text \<open>
  \<open>dyn_cast_or_null<FuncDecl>(decl.dyn_cast<ValueDecl*>())\<close> followed by a test of
  the function declaration.
\<close>

fun locIsGetterOrSetter :: "Loc \<Rightarrow> bool" where
  "locIsGetterOrSetter (LocValueDecl d) = isGetterOrSetter d"
| "locIsGetterOrSetter l = False"

fun locIsInstanceMember :: "Loc \<Rightarrow> bool" where
  "locIsInstanceMember (LocValueDecl d) = isInstanceMember d"
| "locIsInstanceMember l = False"

text \<open>\<open>patterns.slice(1)\<close> asserts that there is a first element to drop.\<close>

definition slice1 :: "Pattern list \<Rightarrow> Error + Pattern list" where
  "slice1 ps = (case ps of [] \<Rightarrow> Inl (AssertionFailed ''Invalid specifier'') | p # r \<Rightarrow> Inr r)"

definition argPatterns :: "FuncExpr \<Rightarrow> Error + Pattern list" where
  "argPatterns fe =
     (if (case feDecl fe of Some dc \<Rightarrow> isTypeContext dc | None \<Rightarrow> False)
      then slice1 (getArgParamPatterns fe)
      else Inr (getArgParamPatterns fe))"

definition emitFunction :: "Frontend \<Rightarrow> Loc \<Rightarrow> FuncExpr \<Rightarrow> SILGenModule \<Rightarrow> Error + SILGenModule" where
  "emitFunction env decl fe s =
     bindE (argPatterns fe) (\<lambda>patterns.
     bindE (emitDefaultArgGenerators env decl patterns s) (\<lambda>s0.
       if feBody fe = None then Inr s0
       else
         bindE (preEmitFunction env (declRef decl) (Some (FuncExprNode fe)) s0) (\<lambda>(f, s1).
         bindE (runSILGenFunction env f (isVoid (feResultType fe)) (EmitFunction fe) s1) (\<lambda>s2.
         bindE (postEmitFunction env (declRef decl) f s2) (\<lambda>s3.
           if locIsGetterOrSetter decl then Inr s3
           else if locIsInstanceMember decl then Inr s3
           else if isPolymorphicFunctionType (loweredType (Mfunctions s3 ! f)) then Inr s3
           else emitCurryThunks env fe (uncurryLevel (declRef decl)) (declRef decl) s3)))))"

definition emitConstructor :: "Frontend \<Rightarrow> ConstructorDecl \<Rightarrow> SILGenModule \<Rightarrow> Error + SILGenModule" where
  "emitConstructor env decl s =
     bindE (emitDefaultArgGenerators env (LocValueDecl (cdDecl decl)) [getArguments decl] s) (\<lambda>s0.
     bindE (preEmitFunction env (declRef (LocValueDecl (cdDecl decl)))
              (Some (ConstructorDeclNode decl)) s0) (\<lambda>(f, s1).
       if thisIsClass decl then
         bindE (runSILGenFunction env f True (EmitClassConstructorAllocator decl) s1) (\<lambda>s2.
         bindE (postEmitFunction env (declRef (LocValueDecl (cdDecl decl))) f s2) (\<lambda>s3.
         bindE (preEmitFunction env (mkSILDeclRef (LocValueDecl (cdDecl decl)) Initializer False)
                  (Some (ConstructorDeclNode decl)) s3) (\<lambda>(initF, s4).
         bindE (runSILGenFunction env initF True (EmitClassConstructorInitializer decl) s4)
           (postEmitFunction env (mkSILDeclRef (LocValueDecl (cdDecl decl)) Initializer False) initF))))
       else
         bindE (runSILGenFunction env f True (EmitValueConstructor decl) s1)
           (postEmitFunction env (declRef (LocValueDecl (cdDecl decl))) f)))"

definition emitPipeClosure :: "Frontend \<Rightarrow> PipeClosureExpr \<Rightarrow> SILGenModule \<Rightarrow> Error + SILGenModule" where
  "emitPipeClosure env ce s =
     bindE (preEmitFunction env (declRef (LocPipeClosureExpr ce)) (Some (PipeClosureExprNode ce)) s)
       (\<lambda>(f, s1).
     bindE (runSILGenFunction env f (isVoid (pceResultType ce)) (EmitPipeClosure ce) s1)
       (postEmitFunction env (declRef (LocPipeClosureExpr ce)) f))"

definition emitClosure :: "Frontend \<Rightarrow> ClosureExpr \<Rightarrow> SILGenModule \<Rightarrow> Error + SILGenModule" where
  "emitClosure env ce s =
     bindE (preEmitFunction env (declRef (LocClosureExpr ce)) (Some (ClosureExprNode ce)) s)
       (\<lambda>(f, s1).
     bindE (runSILGenFunction env f False (EmitClosure ce) s1)
       (postEmitFunction env (declRef (LocClosureExpr ce)) f))"

definition emitDestructor ::
  "Frontend \<Rightarrow> ValueDecl \<Rightarrow> DestructorDecl option \<Rightarrow> SILGenModule \<Rightarrow> Error + SILGenModule" where
  "emitDestructor env cd dd s =
     bindE (preEmitFunction env (mkSILDeclRef (LocValueDecl cd) Destroyer False)
              (map_option DestructorDeclNode dd) s) (\<lambda>(f, s1).
     bindE (runSILGenFunction env f True (EmitDestructor cd dd) s1)
       (postEmitFunction env (mkSILDeclRef (LocValueDecl cd) Destroyer False) f))"

text \<open>The foreign-interop thunks. \<open>method\<close> is a function declaration.\<close>

definition methodBodyNode :: "ValueDecl \<Rightarrow> SILLocation" where
  "methodBodyNode d =
     (case declKind d of FuncDeclKind g i fe \<Rightarrow> Some (FuncExprNode fe) | _ \<Rightarrow> None)"

definition emitObjCMethodThunk :: "Frontend \<Rightarrow> ValueDecl \<Rightarrow> SILGenModule \<Rightarrow> Error + SILGenModule" where
  "emitObjCMethodThunk env method s =
     (let thunk = mkSILDeclRef (LocValueDecl method) (naturalKind (LocValueDecl method)) True in
      if hasFunction s thunk then Inr s
      else
        bindE (preEmitFunction env thunk (methodBodyNode method) s) (\<lambda>(f, s1).
        bindE (runSILGenFunction env f False (EmitObjCMethodThunk thunk) s1)
          (postEmitFunction env thunk f)))"

definition emitObjCPropertyMethodThunks ::
  "Frontend \<Rightarrow> ValueDecl \<Rightarrow> SILGenModule \<Rightarrow> Error + SILGenModule" where
  "emitObjCPropertyMethodThunks env prop s =
     (let getter = mkSILDeclRef (LocValueDecl prop) Getter True;
          setter = mkSILDeclRef (LocValueDecl prop) Setter True in
      if hasFunction s getter then Inr s
      else
        bindE (preEmitFunction env getter (Some (VarDeclNode prop)) s) (\<lambda>(f, s1).
        bindE (runSILGenFunction env f False (EmitObjCPropertyGetter getter) s1) (\<lambda>s2.
        bindE (postEmitFunction env getter f s2) (\<lambda>s3.
          if \<not> isSettable prop then Inr s3
          else
            bindE (preEmitFunction env setter (Some (VarDeclNode prop)) s3) (\<lambda>(f', s4).
            bindE (runSILGenFunction env f' False (EmitObjCPropertySetter setter) s4)
              (postEmitFunction env setter f'))))))"

text \<open>
  The visitors of the module driver. \<open>visitFuncDecl\<close> is called on function
  declarations only.
\<close>

definition visitFuncDecl :: "Frontend \<Rightarrow> ValueDecl \<Rightarrow> SILGenModule \<Rightarrow> Error + SILGenModule" where
  "visitFuncDecl env fd s =
     (case declKind fd of
        FuncDeclKind g i body \<Rightarrow> emitFunction env (LocValueDecl fd) body s
      | _ \<Rightarrow> Inr s)"

definition visitPatternBindingDecl ::
  "Frontend \<Rightarrow> PatternBindingDecl \<Rightarrow> SILGenModule \<Rightarrow> SILGenModule" where
  "visitPatternBindingDecl env pd s =
     (case TopLevelSGF s of
        Some g \<Rightarrow>
          if \<not> hasValidInsertionPoint g then s
          else s\<lparr>TopLevelSGF := Some (visitTopLevel env pd g),
                 trace := trace s @ [VisitedTopLevel pd]\<rparr>
      | None \<Rightarrow> s)"

definition addGlobalVariable :: "ValueDecl \<Rightarrow> SILGenModule \<Rightarrow> SILGenModule" where
  "addGlobalVariable global s = s\<lparr>Mglobals := insert global (Mglobals s)\<rparr>"

definition visitVarDecl :: "ValueDecl \<Rightarrow> SILGenModule \<Rightarrow> SILGenModule" where
  "visitVarDecl vd s = (if \<not> isProperty vd then addGlobalVariable vd s else s)"

section \<open>The bridging resolver\<close>

text \<open>
  The body of the lambda handed to \<open>cacheSlot.cache\<close> in \<open>getBridgingFn\<close>: look
  the function up, check it, and leave through \<open>exit(1)\<close> with a diagnostic when a
  check fails.
\<close>

definition lookupBridgingFn ::
  "Frontend \<Rightarrow> string \<Rightarrow> string \<Rightarrow> SILType list \<Rightarrow> SILType \<Rightarrow> Error + SILDeclRef" where
  "lookupBridgingFn env moduleName functionName inputTypes outputType =
     (case forModuleAndName env moduleName functionName of
        None \<Rightarrow> Inl (FatalDiagnostic None bridging_module_missing moduleName functionName)
      | Some lookup \<Rightarrow>
          if length (Results lookup) = 0
          then Inl (FatalDiagnostic None bridging_function_missing moduleName functionName)
          else if length (Results lookup) > 1
          then Inl (FatalDiagnostic None bridging_function_overloaded moduleName functionName)
          else
            (case Results lookup ! 0 of
               OtherResult x \<Rightarrow>
                 Inl (FatalDiagnostic None bridging_function_not_function moduleName functionName)
             | ValueDeclResult d \<Rightarrow>
                 if \<not> isFuncDecl d
                 then Inl (FatalDiagnostic (declLoc d) bridging_function_not_function
                             moduleName functionName)
                 else
                   (let c = declRef (LocValueDecl d);
                        funcInfo = getFunctionTypeInfo env (getConstantType env c)
                    in if length (fst funcInfo) \<noteq> length inputTypes \<or>
                          \<not> list_all2 (=) (fst funcInfo) inputTypes
                       then Inl (FatalDiagnostic (declLoc d) bridging_function_not_correct_type
                                   moduleName functionName)
                       else if snd funcInfo \<noteq> outputType
                       then Inl (FatalDiagnostic (declLoc d) bridging_function_not_correct_type
                                   moduleName functionName)
                       else Inr c)))"

text \<open>
  \<open>getBridgingFn\<close>: the cache slot is passed in and handed back; \<open>Optional::cache\<close>
  returns the stored value when there is one and otherwise stores and returns the
  value of the lambda.
\<close>

definition getBridgingFn ::
  "Frontend \<Rightarrow> SILDeclRef option \<Rightarrow> string \<Rightarrow> string \<Rightarrow> SILType list \<Rightarrow> SILType
   \<Rightarrow> Error + (SILDeclRef option \<times> SILDeclRef)" where
  "getBridgingFn env cacheSlot moduleName functionName inputTypes outputType =
     (case cacheSlot of
        Some fn \<Rightarrow> Inr (cacheSlot, fn)
      | None \<Rightarrow>
          bindE (lookupBridgingFn env moduleName functionName inputTypes outputType)
            (\<lambda>fn. Inr (Some fn, fn)))"

section \<open>Notions of the specification\<close>

text \<open>
  One complete emission, as the emitters perform it: the declaration reference
  under which the function is created, the location handed to
  \<open>preEmitFunction\<close>, the \<open>hasVoidReturn\<close> flag of the \<open>SILGenFunction\<close> and the
  job it runs. \<open>eventsOf\<close> gives the events an emission leaves in the trace.
\<close>

type_synonym Emission = "SILDeclRef \<times> SILLocation \<times> bool \<times> EmitJob"

fun eventsOf :: "Emission \<Rightarrow> Event list" where
  "eventsOf (c, n, hv, job) = [Lowering c, RanSILGenFunction hv job]"

text \<open>
  The wording of the specification for default arguments, to compare the loops
  with: the parameters of a list of patterns in flattened positional order, each
  with its default initializer if it has one, and the emissions of the generators
  of those that have one, each under its flattened index.
\<close>

definition flattenParams :: "Frontend \<Rightarrow> Pattern list \<Rightarrow> Expr option list" where
  "flattenParams env ps =
     concat (map (\<lambda>p. case getSemanticsProvidingPattern env p of
                         TuplePattern elts \<Rightarrow> map snd elts
                       | _ \<Rightarrow> [None]) ps)"

fun generatorOf :: "Loc \<Rightarrow> nat \<times> Expr option \<Rightarrow> Emission list" where
  "generatorOf decl (i, Some arg) =
     [(getDefaultArgGenerator decl i, Some (ExprNode arg), isVoid (exprType arg),
       EmitGeneratorFunction (getDefaultArgGenerator decl i) arg)]"
| "generatorOf decl (i, None) = []"

definition generatorsFrom :: "Loc \<Rightarrow> nat \<Rightarrow> Expr option list \<Rightarrow> Emission list" where
  "generatorsFrom decl i params = concat (map (generatorOf decl) (enumerate i params))"

definition defaultArgGenerators :: "Frontend \<Rightarrow> Loc \<Rightarrow> Pattern list \<Rightarrow> Emission list" where
  "defaultArgGenerators env decl ps = generatorsFrom decl 0 (flattenParams env ps)"

text \<open>The curry thunks below level \<open>n\<close>, highest level first, each forwarding to
  the entry point of the level above it.\<close>

definition curryThunks :: "FuncExpr \<Rightarrow> SILDeclRef \<Rightarrow> nat \<Rightarrow> Emission list" where
  "curryThunks fe c n =
     map (\<lambda>k. (atUncurryLevel c k, Some (FuncExprNode fe), isVoid (feResultType fe),
               EmitCurryThunk fe (atUncurryLevel c k) (atUncurryLevel c (Suc k))))
         (rev [0..<n])"

text \<open>References that the emitters build, by the names the theorems use.\<close>

abbreviation allocatorRef :: "ConstructorDecl \<Rightarrow> SILDeclRef" where
  "allocatorRef cd \<equiv> declRef (LocValueDecl (cdDecl cd))"

abbreviation initializerRef :: "ConstructorDecl \<Rightarrow> SILDeclRef" where
  "initializerRef cd \<equiv> mkSILDeclRef (LocValueDecl (cdDecl cd)) Initializer False"

abbreviation methodThunk :: "ValueDecl \<Rightarrow> SILDeclRef" where
  "methodThunk method \<equiv>
     mkSILDeclRef (LocValueDecl method) (naturalKind (LocValueDecl method)) True"

abbreviation getterThunk :: "ValueDecl \<Rightarrow> SILDeclRef" where
  "getterThunk p \<equiv> mkSILDeclRef (LocValueDecl p) Getter True"

abbreviation setterThunk :: "ValueDecl \<Rightarrow> SILDeclRef" where
  "setterThunk p \<equiv> mkSILDeclRef (LocValueDecl p) Setter True"

text \<open>The events a run added to the trace.\<close>

definition newEvents :: "SILGenModule \<Rightarrow> SILGenModule \<Rightarrow> Event list" where
  "newEvents s s' = drop (length (trace s)) (trace s')"

text \<open>
  The parameter lists of a function as the specification counts them: without the
  implicit leading ``self'' list when the function is a member of a type.
\<close>

definition parameterLists :: "FuncExpr \<Rightarrow> Pattern list" where
  "parameterLists fe =
     (if (case feDecl fe of Some dc \<Rightarrow> isTypeContext dc | None \<Rightarrow> False)
      then tl (getArgParamPatterns fe)
      else getArgParamPatterns fe)"

text \<open>A reference whose cached function has a body.\<close>

definition emittedBody :: "SILGenModule \<Rightarrow> SILDeclRef \<Rightarrow> bool" where
  "emittedBody s r = (\<exists>f. emittedFunctions s r = Some f \<and> blocks (Mfunctions s ! f) \<noteq> [])"

text \<open>
  What an emission leaves in the module. \<open>functionFor s c\<close> is the function the
  cache of \<open>s\<close> holds for \<open>c\<close>, or the bare declaration \<open>getFunction\<close> would create
  for it when the cache has none. \<open>built f0 n hv job\<close> is the function that
  results from \<open>f0\<close> when it is given the location \<open>n\<close> and a \<open>SILGenFunction\<close>
  with flag \<open>hv\<close> is constructed on it, runs \<open>job\<close> and is destroyed; there is
  none when the destructor stops at its assertion.
\<close>

definition bareDeclaration :: "Frontend \<Rightarrow> SILDeclRef \<Rightarrow> SILFunction" where
  "bareDeclaration env c =
     \<lparr>linkage = getConstantLinkage c, fname = mangleConstant env c,
      loweredType = getConstantType env c, blocks = [], debugScope = None, location = None\<rparr>"

definition functionFor :: "Frontend \<Rightarrow> SILGenModule \<Rightarrow> SILDeclRef \<Rightarrow> SILFunction" where
  "functionFor env s c =
     (case emittedFunctions s c of Some f \<Rightarrow> Mfunctions s ! f | None \<Rightarrow> bareDeclaration env c)"

definition built ::
  "Frontend \<Rightarrow> SILFunction \<Rightarrow> SILLocation \<Rightarrow> bool \<Rightarrow> EmitJob \<Rightarrow> SILFunction option" where
  "built env f0 n hv job =
     (case SILGenFunction_delete
             (emitBody env job
                (SILGenFunction_new (f0\<lparr>debugScope := Some n, location := n\<rparr>) hv)) of
        Inl e \<Rightarrow> None
      | Inr g \<Rightarrow> Some (F g))"

text \<open>
  A run from \<open>s\<close> to \<open>s'\<close> has produced an emission when \<open>s'\<close> has a function
  cached for its reference, that function is the one built by the emission from
  the function \<open>s\<close> had for the reference, and it has a body. A run has left the
  references outside \<open>R\<close> untouched when their cache entries and their functions
  are those of \<open>s\<close>.
\<close>

definition produced :: "Frontend \<Rightarrow> SILGenModule \<Rightarrow> SILGenModule \<Rightarrow> Emission \<Rightarrow> bool" where
  "produced env s s' e =
     (case e of (c, n, hv, job) \<Rightarrow>
        hasFunction s' c \<and>
        built env (functionFor env s c) n hv job = Some (functionFor env s' c) \<and>
        blocks (functionFor env s' c) \<noteq> [])"

definition untouched ::
  "Frontend \<Rightarrow> SILGenModule \<Rightarrow> SILGenModule \<Rightarrow> SILDeclRef set \<Rightarrow> bool" where
  "untouched env s s' R =
     (\<forall>c. c \<notin> R \<longrightarrow>
        emittedFunctions s' c = emittedFunctions s c \<and> functionFor env s' c = functionFor env s c)"

text \<open>
  The invariant of the cache: every cached pointer is a function of the module
  and no two references share a function. It holds for the module generator as
  constructed, and \<open>getFunction\<close>, the only writer of the cache, keeps it.
\<close>

definition wellFormed :: "SILGenModule \<Rightarrow> bool" where
  "wellFormed s =
     ((\<forall>c f. emittedFunctions s c = Some f \<longrightarrow> f < length (Mfunctions s)) \<and>
      (\<forall>c c' f. emittedFunctions s c = Some f \<longrightarrow> emittedFunctions s c' = Some f \<longrightarrow> c = c'))"

text \<open>
  A run from \<open>s\<close> to \<open>s'\<close> emits the list \<open>es\<close>, exactly and in this order: the
  invariant holds again, the trace has grown by the events of \<open>es\<close>, every
  emission of \<open>es\<close> has been produced, every other reference is untouched, and
  the module has one more function for every emission whose reference was not
  cached before.
\<close>

definition emits :: "Frontend \<Rightarrow> SILGenModule \<Rightarrow> SILGenModule \<Rightarrow> Emission list \<Rightarrow> bool" where
  "emits env s s' es =
     (wellFormed s' \<and>
      trace s' = trace s @ concat (map eventsOf es) \<and>
      list_all (produced env s s') es \<and>
      untouched env s s' (set (map fst es)) \<and>
      length (Mfunctions s') =
        length (Mfunctions s) + length (filter (\<lambda>e. \<not> hasFunction s (fst e)) es))"
text \<open>
  The outcomes of bridging resolution: a session aborted with a diagnostic of a
  given kind that carries the module and function name; the function declaration
  a lookup result stands for, if any; the lowered signature of a declaration.
\<close>

definition fatal :: "Diag \<Rightarrow> string \<Rightarrow> string \<Rightarrow> Error + 'a \<Rightarrow> bool" where
  "fatal k m f r = (\<exists>l. r = Inl (FatalDiagnostic l k m f))"

definition foundFunction :: "LookupResult \<Rightarrow> ValueDecl option" where
  "foundFunction x =
     (case x of
        ValueDeclResult d \<Rightarrow> if isFuncDecl d then Some d else None
      | OtherResult y \<Rightarrow> None)"

definition signatureOf :: "Frontend \<Rightarrow> ValueDecl \<Rightarrow> SILType list \<times> SILType" where
  "signatureOf env d = getFunctionTypeInfo env (getConstantType env (declRef (LocValueDecl d)))"

section \<open>A small session\<close>

text \<open>
  Concrete inputs on which the theorems are exercised: a front end whose tree
  walkers emit nothing into a body and whose top-level visitor ends the block, a
  Foundation module whose only function takes two parameters, and a handful of
  declarations.
\<close>

definition demoFrontend :: Frontend where
  "demoFrontend =
     \<lparr>getSemanticsProvidingPattern = withoutWrappers,
      getLoweredType = (\<lambda>t. t),
      getConstantType = (\<lambda>c. FunctionType (TupleType [NominalType ''String'', NominalType ''Int''])
                                (NominalType ''NSString'')),
      getFunctionTypeInfo = (\<lambda>t. case t of FunctionType (TupleType as) r \<Rightarrow> (as, r) | _ \<Rightarrow> ([], t)),
      mangleConstant = (\<lambda>c. ''f''),
      forModuleAndName = (\<lambda>m f. if m = ''Foundation''
         then Some \<lparr>Results = [ValueDeclResult
                \<lparr>declId = 9, declKind = FuncDeclKind False False
                    \<lparr>feId = 9, feDecl = Some (ModuleContext ClangModule),
                     getArgParamPatterns = [TuplePattern [(NamedPattern 0, None), (NamedPattern 1, None)]],
                     feBody = Some 9, feResultType = NominalType ''NSString''\<rparr>,
                  declLoc = Some 9, getDeclContext = ModuleContext ClangModule\<rparr>]\<rparr>
         else None),
      verify = (\<lambda>f. True),
      emitBody = (\<lambda>job g. g),
      visitTopLevel = (\<lambda>pd g. g\<lparr>B := None\<rparr>)\<rparr>"

definition demoModule :: SILGenModule where
  "demoModule = SILGenModule_new demoFrontend"

definition demoClosure :: ClosureExpr where
  "demoClosure = \<lparr>ceId = 0, ceBody = 1\<rparr>"

definition demoDefault :: Expr where
  "demoDefault = \<lparr>exprId = 7, exprType = NominalType ''Int''\<rparr>"

definition demoConstructor :: ConstructorDecl where
  "demoConstructor =
     \<lparr>cdDecl = \<lparr>declId = 1, declKind = ConstructorDeclKind, declLoc = Some 1,
                getDeclContext = ChildContext TypeContext (ModuleContext TranslationUnit)\<rparr>,
      getArguments = TuplePattern [(NamedPattern 0, None), (NamedPattern 1, Some demoDefault)],
      cdBody = 2, thisIsClass = True\<rparr>"

definition demoCurried :: FuncExpr where
  "demoCurried =
     \<lparr>feId = 3, feDecl = Some (ModuleContext TranslationUnit),
      getArgParamPatterns = [TuplePattern [(NamedPattern 0, None)],
                             TuplePattern [(NamedPattern 1, None)],
                             TuplePattern [(NamedPattern 2, None)]],
      feBody = Some 4, feResultType = NominalType ''Int''\<rparr>"

definition demoCurriedDecl :: ValueDecl where
  "demoCurriedDecl =
     \<lparr>declId = 3, declKind = FuncDeclKind False False demoCurried, declLoc = Some 3,
      getDeclContext = ModuleContext TranslationUnit\<rparr>"

definition demoMethod :: FuncExpr where
  "demoMethod =
     \<lparr>feId = 5, feDecl = Some (ChildContext TypeContext (ModuleContext TranslationUnit)),
      getArgParamPatterns = [TuplePattern [(NamedPattern 0, None)],
                             TypedPattern (TuplePattern [(NamedPattern 1, None),
                                                         (NamedPattern 2, Some demoDefault)])],
      feBody = Some 6, feResultType = TupleType []\<rparr>"

definition demoMethodDecl :: ValueDecl where
  "demoMethodDecl =
     \<lparr>declId = 5, declKind = FuncDeclKind False True demoMethod, declLoc = Some 5,
      getDeclContext = ChildContext TypeContext (ModuleContext TranslationUnit)\<rparr>"

definition demoPrototype :: FuncExpr where
  "demoPrototype = demoMethod\<lparr>feBody := None\<rparr>"

definition demoProperty :: ValueDecl where
  "demoProperty =
     \<lparr>declId = 8, declKind = VarDeclKind True True, declLoc = Some 8,
      getDeclContext = ChildContext TypeContext (ModuleContext TranslationUnit)\<rparr>"

definition demoBinding :: "nat \<Rightarrow> PatternBindingDecl" where
  "demoBinding i = \<lparr>pbdId = i, pbdInit = Some demoDefault\<rparr>"

section \<open>Lemmas\<close>

subsection \<open>Sequencing\<close>

lemma bindE_Inl [simp]: "bindE (Inl e) k = Inl e"
  by (simp add: bindE_def)

lemma bindE_Inr [simp]: "bindE (Inr x) k = k x"
  by (simp add: bindE_def)

lemma bindE_eq_Inr: "bindE m k = Inr y \<longleftrightarrow> (\<exists>x. m = Inr x \<and> k x = Inr y)"
  by (cases m) simp_all

subsection \<open>The walk to the module context\<close>

lemma walkToModule_local:
  "walkToModule dc = None \<longleftrightarrow> list_ex isLocalContext (enclosingContexts dc)"
  by (induction dc) auto

lemma walkToModule_module:
  "walkToModule dc = Some m \<Longrightarrow> m = enclosingModule dc"
  by (induction dc) (auto split: if_splits)

subsection \<open>The builder and the destructor\<close>

lemma insertInst_valid:
  "B g = Some b \<Longrightarrow> insertInst i g = Inr (appendToBlock b [i] g)"
  by (simp add: insertInst_def appendToBlock_def)

lemma appendToBlock_B [simp]: "B (appendToBlock b is g) = B g"
  by (simp add: appendToBlock_def)

lemma appendToBlock_Cleanups [simp]: "Cleanups (appendToBlock b is g) = Cleanups g"
  by (simp add: appendToBlock_def)

lemma appendToBlock_twice:
  "appendToBlock b js (appendToBlock b is g) = appendToBlock b (is @ js) g"
  by (cases "b < length (blocks (F g))") (simp_all add: appendToBlock_def list_update_beyond)

lemma emitCleanups_valid:
  "B g = Some b \<Longrightarrow> emitCleanups cs g = Inr (appendToBlock b (map CleanupInst cs) g)"
proof (induction cs arbitrary: g)
  case Nil
  then show ?case by (simp add: appendToBlock_def)
next
  case (Cons a cs)
  then show ?case
    by (simp add: insertInst_valid appendToBlock_twice)
qed

lemma appendToBlock_update_Cleanups:
  "appendToBlock b is (g\<lparr>Cleanups := cs\<rparr>) = (appendToBlock b is g)\<lparr>Cleanups := cs\<rparr>"
  by (simp add: appendToBlock_def)

lemma delete_void:
  assumes b: "B g = Some b" and void: "hasVoidReturn g" and epilog: "epilogBB g = None"
  shows "SILGenFunction_delete g =
    Inr ((appendToBlock b (impliedReturn (Cleanups g)) g)\<lparr>B := None, Cleanups := []\<rparr>)"
proof -
  let ?g1 = "appendToBlock b [TupleInst None []] g"
  let ?g2 = "appendToBlock b (map CleanupInst (Cleanups g)) ?g1"
  let ?g3 = "appendToBlock b [ReturnInst None EmptyTupleValue] (?g2\<lparr>Cleanups := []\<rparr>)"
  have tuple: "emitEmptyTuple None g = Inr (EmptyTupleValue, ?g1)"
    using b by (simp add: emitEmptyTuple_def insertInst_valid)
  have "B ?g1 = Some b"
    using b by simp
  then have cleanups: "emitCleanups (Cleanups ?g1) ?g1 = Inr ?g2"
    by (simp add: emitCleanups_valid)
  have "B (?g2\<lparr>Cleanups := []\<rparr>) = Some b"
    using b by simp
  then have return: "createReturn None EmptyTupleValue (?g2\<lparr>Cleanups := []\<rparr>) =
      Inr (?g3\<lparr>B := None\<rparr>)"
    by (simp add: createReturn_def insertTerminator_def insertInst_valid)
  have "emitReturnAndCleanups None EmptyTupleValue ?g1 = Inr (?g3\<lparr>B := None\<rparr>)"
    unfolding emitReturnAndCleanups_def cleanups bindE_Inr by (rule return)
  with tuple b void epilog have "SILGenFunction_delete g = Inr (?g3\<lparr>B := None\<rparr>)"
    by (simp add: SILGenFunction_delete_def hasValidInsertionPoint_def)
  moreover have "?g3 = (appendToBlock b (impliedReturn (Cleanups g)) g)\<lparr>Cleanups := []\<rparr>"
    by (simp add: appendToBlock_update_Cleanups appendToBlock_twice impliedReturn_def)
  ultimately show ?thesis by simp
qed

lemma delete_nonvoid:
  assumes "B g = Some b" "\<not> hasVoidReturn g"
  shows "SILGenFunction_delete g =
    Inr ((appendToBlock b [UnreachableInst (getFuncBodySILLocation (location (F g)))] g)\<lparr>B := None\<rparr>)"
  using assms
  by (simp add: SILGenFunction_delete_def hasValidInsertionPoint_def createUnreachable_def insertTerminator_def insertInst_valid)

subsection \<open>The function cache\<close>

lemma getFunction_keeps:
  "emittedFunctions s r = Some f \<Longrightarrow> emittedFunctions (snd (getFunction env q s)) r = Some f"
  by (auto simp: getFunction_def split: option.splits)

lemma getFunction_fold_keeps:
  "emittedFunctions s r = Some f \<Longrightarrow>
   emittedFunctions (fold (\<lambda>q t. snd (getFunction env q t)) qs s) r = Some f"
  by (induction qs arbitrary: s) (simp_all add: getFunction_keeps)

lemma getFunction_hit:
  "emittedFunctions s r = Some f \<Longrightarrow> getFunction env r s = (f, s)"
  by (simp add: getFunction_def)

lemma getFunction_registers:
  "getFunction env r s = (f, s1) \<Longrightarrow> emittedFunctions s1 r = Some f"
  by (auto simp: getFunction_def split: option.splits)

lemma getFunction_fresh:
  "getFunction env r s = (f, s1) \<Longrightarrow> \<not> hasFunction s r \<Longrightarrow> blocks (Mfunctions s1 ! f) = []"
  by (auto simp: getFunction_def hasFunction_def split: option.splits)

lemma preEmitFunction_registers:
  "preEmitFunction env c n s = Inr (f, s1) \<Longrightarrow> emittedFunctions s1 c = Some f"
  by (auto simp: preEmitFunction_def dest: getFunction_registers split: prod.splits if_splits)

lemma runSILGenFunction_cache:
  "runSILGenFunction env f hv job s = Inr s1 \<Longrightarrow> emittedFunctions s1 = emittedFunctions s"
  by (auto simp: runSILGenFunction_def bindE_eq_Inr)

lemma preEmitFunction_hasFunction:
  "preEmitFunction env c n s = Inr (f, s1) \<Longrightarrow> hasFunction s r \<Longrightarrow> hasFunction s1 r"
  by (auto simp: preEmitFunction_def hasFunction_def getFunction_def split: option.splits if_splits)

lemma runSILGenFunction_hasFunction:
  "runSILGenFunction env f hv job s = Inr s1 \<Longrightarrow> hasFunction s1 r = hasFunction s r"
  by (simp add: hasFunction_def runSILGenFunction_cache)

subsection \<open>One emission\<close>

lemma postEmitFunction_same:
  "postEmitFunction env c f s = Inr s1 \<Longrightarrow> s1 = s"
  by (auto simp: postEmitFunction_def split: if_splits)

lemma preEmitFunction_fails_iff:
  "preEmitFunction env r n s = Inl e \<longleftrightarrow>
     e = AssertionFailed ''already emitted function?!'' \<and> emittedBody s r"
  by (cases "emittedFunctions s r")
     (auto simp: preEmitFunction_def getFunction_def emittedBody_def)

lemma postEmitFunction_body:
  "postEmitFunction env c f s = Inr s1 \<Longrightarrow> blocks (Mfunctions s1 ! f) \<noteq> []"
  by (auto simp: postEmitFunction_def split: if_splits)

lemma protocol_emittedBody:
  assumes pre: "preEmitFunction env r n s = Inr (f, s1)"
    and run: "runSILGenFunction env f hv job s1 = Inr s2"
    and post: "postEmitFunction env r f s2 = Inr s3"
  shows "emittedBody s3 r"
proof -
  have "emittedFunctions s2 r = Some f"
    using preEmitFunction_registers [OF pre] runSILGenFunction_cache [OF run] by simp
  moreover have "s3 = s2" using post by (rule postEmitFunction_same)
  moreover have "blocks (Mfunctions s3 ! f) \<noteq> []" using post by (rule postEmitFunction_body)
  ultimately show ?thesis by (auto simp: emittedBody_def)
qed

lemma protocol_emittedBody':
  assumes "bindE (preEmitFunction env c n s) (\<lambda>(f, s1).
           bindE (runSILGenFunction env f hv job s1) (postEmitFunction env c f)) = Inr s'"
  shows "emittedBody s' c"
proof -
  from assms obtain f s1 s2 where
    pre: "preEmitFunction env c n s = Inr (f, s1)" and
    run: "runSILGenFunction env f hv job s1 = Inr s2" and
    post: "postEmitFunction env c f s2 = Inr s'"
    by (auto simp: bindE_eq_Inr)
  then show ?thesis by (rule protocol_emittedBody)
qed

lemma emittedBody_hasFunction: "emittedBody s r \<Longrightarrow> hasFunction s r"
  by (auto simp: emittedBody_def hasFunction_def)

lemma emittedBody_rejects:
  "emittedBody s r \<Longrightarrow> preEmitFunction env r n s = Inl (AssertionFailed ''already emitted function?!'')"
  by (simp add: preEmitFunction_fails_iff)

lemma protocol_hasFunction:
  assumes "bindE (preEmitFunction env c n s) (\<lambda>(f, s1).
           bindE (runSILGenFunction env f hv job s1) (postEmitFunction env c f)) = Inr s'"
    and "hasFunction s r"
  shows "hasFunction s' r"
proof -
  from assms(1) obtain f s1 s2 where
    pre: "preEmitFunction env c n s = Inr (f, s1)" and
    run: "runSILGenFunction env f hv job s1 = Inr s2" and
    post: "postEmitFunction env c f s2 = Inr s'"
    by (auto simp: bindE_eq_Inr)
  from preEmitFunction_hasFunction [OF pre assms(2)] runSILGenFunction_hasFunction [OF run]
    postEmitFunction_same [OF post]
  show ?thesis by simp
qed

subsection \<open>Uncurry levels and kinds of references\<close>

lemma atUncurryLevel_twice [simp]: "atUncurryLevel (atUncurryLevel c k) j = atUncurryLevel c j"
  by (simp add: atUncurryLevel_def)

lemma atUncurryLevel_self [simp]: "atUncurryLevel c (uncurryLevel c) = c"
  by (simp add: atUncurryLevel_def)

lemma atUncurryLevel_inj: "atUncurryLevel c k = atUncurryLevel c j \<Longrightarrow> k = j"
  by (simp add: atUncurryLevel_def) (metis SILDeclRef.select_convs(3) SILDeclRef.surjective SILDeclRef.update_convs(3))

lemma atUncurryLevel_kind [simp]: "kind (atUncurryLevel c k) = kind c"
  by (simp add: atUncurryLevel_def)

lemma declRef_kind: "kind (declRef l) \<noteq> DefaultArgGenerator"
  by (cases l) (simp_all add: declRef_def mkSILDeclRef_def split: DeclKind.splits)

subsection \<open>The steps of the emitters\<close>

lemma argPatterns_parameterLists: "argPatterns fe = Inr ps \<Longrightarrow> ps = parameterLists fe"
  by (auto simp: argPatterns_def parameterLists_def slice1_def split: if_splits list.splits)

lemma emitFunction_steps:
  assumes "emitFunction env decl fe s = Inr s'"
  shows "\<exists>s0. emitDefaultArgGenerators env decl (parameterLists fe) s = Inr s0 \<and>
          (if feBody fe = None then s' = s0
           else \<exists>f s1 s2.
             preEmitFunction env (declRef decl) (Some (FuncExprNode fe)) s0 = Inr (f, s1) \<and>
             runSILGenFunction env f (isVoid (feResultType fe)) (EmitFunction fe) s1 = Inr s2 \<and>
             postEmitFunction env (declRef decl) f s2 = Inr s2 \<and>
             (if locIsGetterOrSetter decl \<or> locIsInstanceMember decl \<or>
                 isPolymorphicFunctionType (loweredType (Mfunctions s2 ! f))
              then s' = s2
              else emitCurryThunks env fe (uncurryLevel (declRef decl)) (declRef decl) s2 = Inr s'))"
proof -
  from assms obtain ps s0 where
    ps: "argPatterns fe = Inr ps" and
    gens: "emitDefaultArgGenerators env decl ps s = Inr s0"
    by (auto simp: emitFunction_def bindE_eq_Inr)
  have ps': "ps = parameterLists fe" using ps by (rule argPatterns_parameterLists)
  show ?thesis
  proof (cases "feBody fe = None")
    case True
    with assms ps gens ps' show ?thesis
      by (auto simp: emitFunction_def)
  next
    case False
    with assms ps gens obtain f s1 s2 s3 where
      pre: "preEmitFunction env (declRef decl) (Some (FuncExprNode fe)) s0 = Inr (f, s1)" and
      run: "runSILGenFunction env f (isVoid (feResultType fe)) (EmitFunction fe) s1 = Inr s2" and
      post: "postEmitFunction env (declRef decl) f s2 = Inr s3" and
      tail: "(if locIsGetterOrSetter decl then Inr s3
              else if locIsInstanceMember decl then Inr s3
              else if isPolymorphicFunctionType (loweredType (Mfunctions s3 ! f)) then Inr s3
              else emitCurryThunks env fe (uncurryLevel (declRef decl)) (declRef decl) s3) = Inr s'"
      by (auto simp: emitFunction_def bindE_eq_Inr)
    have s3: "s3 = s2" using post by (rule postEmitFunction_same)
    from tail have "(if locIsGetterOrSetter decl \<or> locIsInstanceMember decl \<or>
                 isPolymorphicFunctionType (loweredType (Mfunctions s2 ! f))
              then s' = s2
              else emitCurryThunks env fe (uncurryLevel (declRef decl)) (declRef decl) s2 = Inr s')"
      unfolding s3 by (auto split: if_splits)
    with False gens pre run post s3 ps' show ?thesis
      by auto
  qed
qed

lemma emitObjCPropertyMethodThunks_steps:
  assumes "emitObjCPropertyMethodThunks env prop s = Inr s'"
    and "\<not> hasFunction s (mkSILDeclRef (LocValueDecl prop) Getter True)"
  shows "\<exists>s3.
     bindE (preEmitFunction env (mkSILDeclRef (LocValueDecl prop) Getter True) (Some (VarDeclNode prop)) s)
       (\<lambda>(f, s1). bindE (runSILGenFunction env f False
           (EmitObjCPropertyGetter (mkSILDeclRef (LocValueDecl prop) Getter True)) s1)
         (postEmitFunction env (mkSILDeclRef (LocValueDecl prop) Getter True) f)) = Inr s3 \<and>
     (if isSettable prop
      then bindE (preEmitFunction env (mkSILDeclRef (LocValueDecl prop) Setter True) (Some (VarDeclNode prop)) s3)
       (\<lambda>(f, s1). bindE (runSILGenFunction env f False
           (EmitObjCPropertySetter (mkSILDeclRef (LocValueDecl prop) Setter True)) s1)
         (postEmitFunction env (mkSILDeclRef (LocValueDecl prop) Setter True) f)) = Inr s'
      else s' = s3)"
proof -
  let ?getter = "mkSILDeclRef (LocValueDecl prop) Getter True"
  from assms obtain f s1 s2 s3 where
    pre: "preEmitFunction env ?getter (Some (VarDeclNode prop)) s = Inr (f, s1)" and
    run: "runSILGenFunction env f False (EmitObjCPropertyGetter ?getter) s1 = Inr s2" and
    post: "postEmitFunction env ?getter f s2 = Inr s3" and
    rest: "(if \<not> isSettable prop then Inr s3
            else bindE (preEmitFunction env (mkSILDeclRef (LocValueDecl prop) Setter True)
                          (Some (VarDeclNode prop)) s3)
              (\<lambda>(f', s4). bindE (runSILGenFunction env f' False
                  (EmitObjCPropertySetter (mkSILDeclRef (LocValueDecl prop) Setter True)) s4)
                (postEmitFunction env (mkSILDeclRef (LocValueDecl prop) Setter True) f'))) = Inr s'"
    by (auto simp: emitObjCPropertyMethodThunks_def Let_def bindE_eq_Inr)
  from pre run post have "bindE (preEmitFunction env ?getter (Some (VarDeclNode prop)) s)
       (\<lambda>(f, s1). bindE (runSILGenFunction env f False (EmitObjCPropertyGetter ?getter) s1)
         (postEmitFunction env ?getter f)) = Inr s3"
    by simp
  moreover from rest have "if isSettable prop
      then bindE (preEmitFunction env (mkSILDeclRef (LocValueDecl prop) Setter True) (Some (VarDeclNode prop)) s3)
       (\<lambda>(f, s1). bindE (runSILGenFunction env f False
           (EmitObjCPropertySetter (mkSILDeclRef (LocValueDecl prop) Setter True)) s1)
         (postEmitFunction env (mkSILDeclRef (LocValueDecl prop) Setter True) f)) = Inr s'
      else s' = s3"
    by (simp split: if_splits)
  ultimately show ?thesis by blast
qed

lemma lookupBridgingFn_cases:
  "lookupBridgingFn env m fn ins out =
     (case forModuleAndName env m fn of
        None \<Rightarrow> Inl (FatalDiagnostic None bridging_module_missing m fn)
      | Some lk \<Rightarrow>
         (case Results lk of
            [] \<Rightarrow> Inl (FatalDiagnostic None bridging_function_missing m fn)
          | [x] \<Rightarrow>
             (case foundFunction x of
                None \<Rightarrow> Inl (FatalDiagnostic (case x of ValueDeclResult d \<Rightarrow> declLoc d | _ \<Rightarrow> None)
                          bridging_function_not_function m fn)
              | Some d \<Rightarrow>
                  if signatureOf env d = (ins, out) then Inr (declRef (LocValueDecl d))
                  else Inl (FatalDiagnostic (declLoc d) bridging_function_not_correct_type m fn))
          | x # y # r \<Rightarrow> Inl (FatalDiagnostic None bridging_function_overloaded m fn)))"
  by (auto simp: lookupBridgingFn_def foundFunction_def signatureOf_def Let_def list_all2_eq [symmetric]
      split: option.splits list.splits LookupResult.splits prod.splits)

subsection \<open>Emissions and the module\<close>

lemma wellFormed_new: "wellFormed (SILGenModule_new env)"
  by (simp add: wellFormed_def SILGenModule_new_def Let_def)

lemma emits_Nil: "wellFormed s \<Longrightarrow> emits env s s []"
  by (simp add: emits_def untouched_def)

lemma produced_transfer:
  assumes "produced env s1 s2 e"
    and "functionFor env s1 (fst e) = functionFor env s (fst e)"
    and "emittedFunctions s3 (fst e) = emittedFunctions s2 (fst e)"
    and "functionFor env s3 (fst e) = functionFor env s2 (fst e)"
  shows "produced env s s3 e"
  using assms by (auto simp: produced_def hasFunction_def split: prod.splits)

lemma emits_append:
  assumes one: "emits env s s1 es1" and two: "emits env s1 s2 es2"
    and disj: "set (map fst es1) \<inter> set (map fst es2) = {}"
  shows "emits env s s2 (es1 @ es2)"
proof -
  from one have u1: "untouched env s s1 (set (map fst es1))"
    and p1: "list_all (produced env s s1) es1"
    and t1: "trace s1 = trace s @ concat (map eventsOf es1)"
    and n1: "length (Mfunctions s1) =
        length (Mfunctions s) + length (filter (\<lambda>e. \<not> hasFunction s (fst e)) es1)"
    by (simp_all add: emits_def)
  from two have wf: "wellFormed s2" and u2: "untouched env s1 s2 (set (map fst es2))"
    and p2: "list_all (produced env s1 s2) es2"
    and t2: "trace s2 = trace s1 @ concat (map eventsOf es2)"
    and n2: "length (Mfunctions s2) =
        length (Mfunctions s1) + length (filter (\<lambda>e. \<not> hasFunction s1 (fst e)) es2)"
    by (simp_all add: emits_def)
  have p1': "list_all (produced env s s2) es1"
    unfolding list_all_iff
  proof
    fix e assume e: "e \<in> set es1"
    with disj have "fst e \<notin> set (map fst es2)" by auto
    with u2 have "emittedFunctions s2 (fst e) = emittedFunctions s1 (fst e)"
      "functionFor env s2 (fst e) = functionFor env s1 (fst e)"
      by (simp_all add: untouched_def)
    moreover from p1 e have "produced env s s1 e" by (simp add: list_all_iff)
    ultimately show "produced env s s2 e"
      using produced_transfer [of env s s1 e s s2] by simp
  qed
  have same: "emittedFunctions s1 (fst e) = emittedFunctions s (fst e) \<and>
              functionFor env s1 (fst e) = functionFor env s (fst e)" if "e \<in> set es2" for e
  proof -
    from that disj have "fst e \<notin> set (map fst es1)" by auto
    with u1 show ?thesis by (simp add: untouched_def)
  qed
  have p2': "list_all (produced env s s2) es2"
    unfolding list_all_iff
  proof
    fix e assume e: "e \<in> set es2"
    from p2 e have "produced env s1 s2 e" by (simp add: list_all_iff)
    with same [OF e] show "produced env s s2 e"
      using produced_transfer [of env s1 s2 e s s2] by simp
  qed
  have "filter (\<lambda>e. \<not> hasFunction s1 (fst e)) es2 = filter (\<lambda>e. \<not> hasFunction s (fst e)) es2"
    by (rule filter_cong) (simp_all add: hasFunction_def same)
  with n1 n2 have n: "length (Mfunctions s2) =
        length (Mfunctions s) + length (filter (\<lambda>e. \<not> hasFunction s (fst e)) (es1 @ es2))"
    by simp
  have u: "untouched env s s2 (set (map fst (es1 @ es2)))"
    using u1 u2 by (simp add: untouched_def)
  from wf t1 t2 p1' p2' u n show ?thesis
    by (simp add: emits_def)
qed

lemma emits_produced: "emits env s s' es \<Longrightarrow> e \<in> set es \<Longrightarrow> produced env s s' e"
  by (simp add: emits_def list_all_iff)

lemma emits_untouched:
  "emits env s s' es \<Longrightarrow> c \<notin> fst ` set es \<Longrightarrow>
   emittedFunctions s' c = emittedFunctions s c \<and> functionFor env s' c = functionFor env s c"
  by (simp add: emits_def untouched_def)

lemma untouched_trans:
  "untouched env s s1 R \<Longrightarrow> untouched env s1 s2 R \<Longrightarrow> untouched env s s2 R"
  by (simp add: untouched_def)

lemma getFunction_effect:
  assumes wf: "wellFormed s" and get: "getFunction env c s = (f, s1)"
  shows "wellFormed s1 \<and> emittedFunctions s1 c = Some f \<and> f < length (Mfunctions s1) \<and>
         Mfunctions s1 ! f = functionFor env s c \<and> untouched env s s1 {c} \<and>
         trace s1 = trace s \<and>
         length (Mfunctions s1) = length (Mfunctions s) + (if hasFunction s c then 0 else 1)"
proof (cases "emittedFunctions s c")
  case (Some x)
  with get have "f = x" "s1 = s"
    by (simp_all add: getFunction_def)
  with Some wf show ?thesis
    by (simp add: wellFormed_def functionFor_def untouched_def hasFunction_def)
next
  case None
  with get have f: "f = length (Mfunctions s)" and
    s1: "s1 = s\<lparr>Mfunctions := Mfunctions s @ [bareDeclaration env c],
                emittedFunctions := (emittedFunctions s)(c := Some (length (Mfunctions s)))\<rparr>"
    by (auto simp: getFunction_def bareDeclaration_def)
  have "wellFormed s1"
    unfolding wellFormed_def s1 using wf
    by (auto simp: wellFormed_def less_Suc_eq dest: spec)
  moreover have "untouched env s s1 {c}"
    unfolding untouched_def s1 using wf
    by (auto simp: functionFor_def wellFormed_def nth_append split: option.splits)
  ultimately show ?thesis
    using None by (simp add: s1 f functionFor_def hasFunction_def)
qed

lemma update_effect:
  assumes wf: "wellFormed s1" and c: "emittedFunctions s1 c = Some f"
    and cache: "emittedFunctions s2 = emittedFunctions s1"
    and funs: "Mfunctions s2 = (Mfunctions s1)[f := X]"
  shows "wellFormed s2 \<and> functionFor env s2 c = X \<and> Mfunctions s2 ! f = X \<and>
         untouched env s1 s2 {c} \<and> length (Mfunctions s2) = length (Mfunctions s1)"
proof -
  from wf c have f: "f < length (Mfunctions s1)"
    by (simp add: wellFormed_def)
  have other: "emittedFunctions s1 c' = Some f' \<Longrightarrow> c' \<noteq> c \<Longrightarrow> f' \<noteq> f" for c' f'
    using wf c by (auto simp: wellFormed_def)
  have "untouched env s1 s2 {c}"
    unfolding untouched_def
    by (auto simp: functionFor_def cache funs dest: other split: option.splits)
  moreover have "wellFormed s2"
    using wf by (simp add: wellFormed_def cache funs)
  ultimately show ?thesis
    using f c by (simp add: functionFor_def cache funs)
qed

lemma protocol_emits:
  assumes wf: "wellFormed s"
    and pre: "preEmitFunction env c n s = Inr (f, s1)"
    and run: "runSILGenFunction env f hv job s1 = Inr s2"
    and post: "postEmitFunction env c f s2 = Inr s3"
  shows "emits env s s3 [(c, n, hv, job)]"
proof -
  obtain s0 where get: "getFunction env c s = (f, s0)" and
    s1: "s1 = s0\<lparr>Mfunctions := (Mfunctions s0)
                   [f := (Mfunctions s0 ! f)\<lparr>debugScope := Some n, location := n\<rparr>],
                 trace := trace s0 @ [Lowering c]\<rparr>"
    using pre by (auto simp: preEmitFunction_def split: prod.splits if_splits)
  note g = getFunction_effect [OF wf get]
  from g have wf0: "wellFormed s0" and c0: "emittedFunctions s0 c = Some f" by simp_all
  have u1: "wellFormed s1 \<and> functionFor env s1 c =
                (functionFor env s c)\<lparr>debugScope := Some n, location := n\<rparr> \<and>
            Mfunctions s1 ! f = (functionFor env s c)\<lparr>debugScope := Some n, location := n\<rparr> \<and>
            untouched env s0 s1 {c} \<and> length (Mfunctions s1) = length (Mfunctions s0)"
    using update_effect [OF wf0 c0, of s1 "(Mfunctions s0 ! f)\<lparr>debugScope := Some n, location := n\<rparr>" env] g
    by (simp add: s1)
  then have wf1: "wellFormed s1" by simp
  have c1: "emittedFunctions s1 c = Some f" using c0 by (simp add: s1)
  obtain gen where del: "SILGenFunction_delete
        (emitBody env job (SILGenFunction_new (Mfunctions s1 ! f) hv)) = Inr gen" and
    s2: "s2 = s1\<lparr>Mfunctions := (Mfunctions s1)[f := F gen],
                 trace := trace s1 @ [RanSILGenFunction hv job]\<rparr>"
    using run by (auto simp: runSILGenFunction_def bindE_eq_Inr)
  have u2: "wellFormed s2 \<and> functionFor env s2 c = F gen \<and> Mfunctions s2 ! f = F gen \<and>
            untouched env s1 s2 {c} \<and> length (Mfunctions s2) = length (Mfunctions s1)"
    using update_effect [OF wf1 c1, of s2 "F gen" env] by (simp add: s2)
  have s3: "s3 = s2" using post by (rule postEmitFunction_same)
  have body: "blocks (Mfunctions s2 ! f) \<noteq> []"
    using postEmitFunction_body [OF post] s3 by simp
  have built: "built env (functionFor env s c) n hv job = Some (F gen)"
    using del u1 by (simp add: built_def)
  have "produced env s s2 (c, n, hv, job)"
    using built u2 body c1 by (simp add: produced_def hasFunction_def s2)
  moreover have "untouched env s s2 {c}"
    using g u1 u2 by (blast intro: untouched_trans)
  moreover have "trace s2 = trace s @ [Lowering c, RanSILGenFunction hv job]"
    using g by (simp add: s2 s1)
  moreover have "length (Mfunctions s2) =
      length (Mfunctions s) + (if hasFunction s c then 0 else 1)"
    using g u1 u2 by simp
  ultimately show ?thesis
    using u2 by (simp add: emits_def s3)
qed

lemma protocol_emits':
  assumes "wellFormed s"
    and "bindE (preEmitFunction env c n s) (\<lambda>(f, s1).
           bindE (runSILGenFunction env f hv job s1) (postEmitFunction env c f)) = Inr s'"
  shows "emits env s s' [(c, n, hv, job)]"
proof -
  from assms(2) obtain f s1 s2 where
    "preEmitFunction env c n s = Inr (f, s1)"
    "runSILGenFunction env f hv job s1 = Inr s2"
    "postEmitFunction env c f s2 = Inr s'"
    by (auto simp: bindE_eq_Inr)
  with assms(1) show ?thesis by (rule protocol_emits)
qed

lemma emits_wellFormed: "emits env s s' es \<Longrightarrow> wellFormed s'"
  by (simp add: emits_def)

subsection \<open>Default-argument generators and curry thunks\<close>

lemma generatorsFrom_Nil [simp]: "generatorsFrom decl i [] = []"
  by (simp add: generatorsFrom_def)

lemma generatorsFrom_Cons:
  "generatorsFrom decl i (x # xs) = generatorOf decl (i, x) @ generatorsFrom decl (Suc i) xs"
  by (simp add: generatorsFrom_def)

lemma generatorsFrom_append:
  "generatorsFrom decl i (xs @ ys) =
   generatorsFrom decl i xs @ generatorsFrom decl (i + length xs) ys"
  by (simp add: generatorsFrom_def enumerate_append_eq)

lemma generatorsFrom_refs:
  "c \<in> fst ` set (generatorsFrom decl i xs) \<Longrightarrow>
   kind c = DefaultArgGenerator \<and> i \<le> defaultArgIndex c \<and> defaultArgIndex c < i + length xs"
proof (induction xs arbitrary: i)
  case Nil
  then show ?case by simp
next
  case (Cons x xs)
  then show ?case
    by (cases x) (fastforce simp: generatorsFrom_Cons getDefaultArgGenerator_def)+
qed

lemma curryThunks_refs:
  "c' \<in> fst ` set (curryThunks fe c n) \<Longrightarrow>
   (\<exists>k < n. c' = atUncurryLevel c k)"
  by (auto simp: curryThunks_def)

lemma curryThunks_Suc:
  "curryThunks fe c (Suc n) =
     (atUncurryLevel c n, Some (FuncExprNode fe), isVoid (feResultType fe),
      EmitCurryThunk fe (atUncurryLevel c n) (atUncurryLevel c (Suc n))) # curryThunks fe c n"
  by (simp add: curryThunks_def)

lemma curryThunks_length: "length (curryThunks fe c n) = n"
  by (simp add: curryThunks_def)

lemma emitDefaultArgGenerator_emits:
  "wellFormed s \<Longrightarrow> emitDefaultArgGenerator env c arg s = Inr s' \<Longrightarrow>
   emits env s s' [(c, Some (ExprNode arg), isVoid (exprType arg), EmitGeneratorFunction c arg)]"
  unfolding emitDefaultArgGenerator_def by (rule protocol_emits')

lemma emitFieldGenerators_emits:
  "wellFormed s \<Longrightarrow> emitFieldGenerators env decl i elts s = Inr (i', s') \<Longrightarrow>
   i' = i + length elts \<and> emits env s s' (generatorsFrom decl i (map snd elts))"
proof (induction elts arbitrary: i s)
  case Nil
  then show ?case by (simp add: emits_Nil)
next
  case (Cons elt elts)
  show ?case
  proof (cases "snd elt")
    case None
    with Cons.prems have "emitFieldGenerators env decl (i + 1) elts s = Inr (i', s')"
      by simp
    from Cons.IH [OF Cons.prems(1) this] None show ?thesis
      by (simp add: generatorsFrom_Cons)
  next
    case (Some arg)
    with Cons.prems obtain s1 where
      one: "emitDefaultArgGenerator env (getDefaultArgGenerator decl i) arg s = Inr s1" and
      rest: "emitFieldGenerators env decl (i + 1) elts s1 = Inr (i', s')"
      by (auto simp: bindE_eq_Inr)
    note e1 = emitDefaultArgGenerator_emits [OF Cons.prems(1) one]
    note e2 = Cons.IH [OF emits_wellFormed [OF e1] rest]
    have "getDefaultArgGenerator decl i \<notin> fst ` set (generatorsFrom decl (Suc i) (map snd elts))"
    proof
      assume "getDefaultArgGenerator decl i \<in> fst ` set (generatorsFrom decl (Suc i) (map snd elts))"
      from generatorsFrom_refs [OF this] show False
        by (simp add: getDefaultArgGenerator_def)
    qed
    then have "fst ` set (generatorOf decl (i, Some arg)) \<inter>
          fst ` set (generatorsFrom decl (Suc i) (map snd elts)) = {}"
      by simp
    with e1 e2 have "emits env s s'
        (generatorOf decl (i, Some arg) @ generatorsFrom decl (Suc i) (map snd elts))"
      by (intro emits_append [where ?s1.0 = s1]) simp_all
    with e2 Some show ?thesis
      by (simp add: generatorsFrom_Cons)
  qed
qed

lemma emitPatternGenerators_emits:
  "wellFormed s \<Longrightarrow> emitPatternGenerators env decl i ps s = Inr s' \<Longrightarrow>
   emits env s s' (generatorsFrom decl i (flattenParams env ps))"
proof (induction ps arbitrary: i s)
  case Nil
  then show ?case by (simp add: flattenParams_def emits_Nil)
next
  case (Cons p ps)
  have fl: "flattenParams env (p # ps) =
      (case getSemanticsProvidingPattern env p of TuplePattern elts \<Rightarrow> map snd elts | _ \<Rightarrow> [None])
      @ flattenParams env ps"
    by (simp add: flattenParams_def)
  show ?case
  proof (cases "getSemanticsProvidingPattern env p")
    case (TuplePattern elts)
    with Cons.prems obtain i1 s1 where
      inner: "emitFieldGenerators env decl i elts s = Inr (i1, s1)" and
      outer: "emitPatternGenerators env decl i1 ps s1 = Inr s'"
      by (auto simp: bindE_eq_Inr)
    from emitFieldGenerators_emits [OF Cons.prems(1) inner] have
      i1: "i1 = i + length elts" and
      e1: "emits env s s1 (generatorsFrom decl i (map snd elts))"
      by simp_all
    note e2 = Cons.IH [OF emits_wellFormed [OF e1] outer]
    have "fst ` set (generatorsFrom decl i (map snd elts)) \<inter>
          fst ` set (generatorsFrom decl i1 (flattenParams env ps)) = {}"
      using generatorsFrom_refs [of _ decl i "map snd elts"]
        generatorsFrom_refs [of _ decl i1 "flattenParams env ps"]
      unfolding i1 by fastforce
    with e1 e2 have "emits env s s'
        (generatorsFrom decl i (map snd elts) @ generatorsFrom decl i1 (flattenParams env ps))"
      by (intro emits_append [where ?s1.0 = s1]) simp_all
    with TuplePattern fl i1 show ?thesis
      by (simp add: generatorsFrom_append)
  qed (use Cons.prems Cons.IH [of s "i + 1"] fl in
        \<open>simp_all add: generatorsFrom_Cons\<close>)
qed

lemma emitDefaultArgGenerators_emits:
  "wellFormed s \<Longrightarrow> emitDefaultArgGenerators env decl ps s = Inr s' \<Longrightarrow>
   emits env s s' (defaultArgGenerators env decl ps)"
  by (simp add: emitDefaultArgGenerators_def defaultArgGenerators_def emitPatternGenerators_emits)

lemma emitCurryThunk_emits:
  "wellFormed s \<Longrightarrow> emitCurryThunk env entry nxt fe s = Inr s' \<Longrightarrow>
   emits env s s' [(entry, Some (FuncExprNode fe), isVoid (feResultType fe),
                    EmitCurryThunk fe entry nxt)]"
  unfolding emitCurryThunk_def by (rule protocol_emits')

lemma emitCurryThunks_emits:
  "wellFormed s \<Longrightarrow> emitCurryThunks env fe n (atUncurryLevel c n) s = Inr s' \<Longrightarrow>
   emits env s s' (curryThunks fe c n)"
proof (induction n arbitrary: s)
  case 0
  then show ?case by (simp add: curryThunks_def emits_Nil)
next
  case (Suc n)
  from Suc.prems obtain s1 where
    one: "emitCurryThunk env (atUncurryLevel c n) (atUncurryLevel c (Suc n)) fe s = Inr s1" and
    rest: "emitCurryThunks env fe n (atUncurryLevel c n) s1 = Inr s'"
    by (auto simp: bindE_eq_Inr)
  note e1 = emitCurryThunk_emits [OF Suc.prems(1) one]
  note e2 = Suc.IH [OF emits_wellFormed [OF e1] rest]
  have "atUncurryLevel c n \<notin> fst ` set (curryThunks fe c n)"
  proof
    assume "atUncurryLevel c n \<in> fst ` set (curryThunks fe c n)"
    from curryThunks_refs [OF this] obtain k where "k < n" "atUncurryLevel c n = atUncurryLevel c k"
      by blast
    then show False by (auto dest: atUncurryLevel_inj)
  qed
  then have "{atUncurryLevel c n} \<inter> fst ` set (curryThunks fe c n) = {}"
    by simp
  with e1 e2 have "emits env s s'
      ([(atUncurryLevel c n, Some (FuncExprNode fe), isVoid (feResultType fe),
         EmitCurryThunk fe (atUncurryLevel c n) (atUncurryLevel c (Suc n)))] @ curryThunks fe c n)"
    by (intro emits_append [where ?s1.0 = s1]) simp_all
  then show ?case by (simp add: curryThunks_Suc)
qed

subsection \<open>The emissions of a function\<close>

lemma emitFunction_emits:
  assumes wf: "wellFormed s" and run: "emitFunction env decl fe s = Inr s'"
  shows "emits env s s'
           (defaultArgGenerators env decl (parameterLists fe) @
            (if feBody fe = None then []
             else (declRef decl, Some (FuncExprNode fe), isVoid (feResultType fe), EmitFunction fe) #
                  (if locIsGetterOrSetter decl \<or> locIsInstanceMember decl \<or>
                      isPolymorphicFunctionType (loweredType (functionFor env s' (declRef decl)))
                   then []
                   else curryThunks fe (declRef decl) (uncurryLevel (declRef decl)))))"
proof (cases "feBody fe = None")
  case True
  with emitFunction_steps [OF run] have
    "emitDefaultArgGenerators env decl (parameterLists fe) s = Inr s'"
    by auto
  from emitDefaultArgGenerators_emits [OF wf this] True show ?thesis by simp
next
  case False
  then have nb: "(feBody fe = None) = False" by simp
  let ?c = "declRef decl"
  let ?main = "(?c, Some (FuncExprNode fe), isVoid (feResultType fe), EmitFunction fe)"
  let ?thunks = "curryThunks fe ?c (uncurryLevel ?c)"
  from False emitFunction_steps [OF run] obtain s0 f s1 s2 where
    gens: "emitDefaultArgGenerators env decl (parameterLists fe) s = Inr s0" and
    pre: "preEmitFunction env ?c (Some (FuncExprNode fe)) s0 = Inr (f, s1)" and
    body: "runSILGenFunction env f (isVoid (feResultType fe)) (EmitFunction fe) s1 = Inr s2" and
    post: "postEmitFunction env ?c f s2 = Inr s2" and
    tail: "if locIsGetterOrSetter decl \<or> locIsInstanceMember decl \<or>
                 isPolymorphicFunctionType (loweredType (Mfunctions s2 ! f))
              then s' = s2
              else emitCurryThunks env fe (uncurryLevel ?c) ?c s2 = Inr s'"
    by auto
  note e0 = emitDefaultArgGenerators_emits [OF wf gens]
  note e1 = protocol_emits [OF emits_wellFormed [OF e0] pre body post]
  note wf2 = emits_wellFormed [OF e1]
  have cache: "emittedFunctions s2 ?c = Some f"
    using preEmitFunction_registers [OF pre] runSILGenFunction_cache [OF body] by simp
  then have fn2: "Mfunctions s2 ! f = functionFor env s2 ?c"
    by (simp add: functionFor_def)
  have notthunk: "?c \<notin> fst ` set ?thunks"
  proof
    assume "?c \<in> fst ` set ?thunks"
    from curryThunks_refs [OF this] obtain k where
      "k < uncurryLevel ?c" "?c = atUncurryLevel ?c k" by blast
    then have "uncurryLevel ?c = k" by (metis atUncurryLevel_inj atUncurryLevel_self)
    with \<open>k < uncurryLevel ?c\<close> show False by simp
  qed
  have notgen: "c \<in> fst ` set (defaultArgGenerators env decl (parameterLists fe)) \<Longrightarrow>
      kind c = DefaultArgGenerator" for c
    unfolding defaultArgGenerators_def by (drule generatorsFrom_refs) simp
  have thunkkind: "c \<in> fst ` set ?thunks \<Longrightarrow> kind c \<noteq> DefaultArgGenerator" for c
    by (drule curryThunks_refs) (auto simp: declRef_kind)
  have e01: "emits env s s2 (defaultArgGenerators env decl (parameterLists fe) @ [?main])"
  proof (rule emits_append [OF e0 e1])
    show "set (map fst (defaultArgGenerators env decl (parameterLists fe))) \<inter>
          set (map fst [?main]) = {}"
      using notgen [of ?c] declRef_kind [of decl] by auto
  qed
  show ?thesis
  proof (cases "locIsGetterOrSetter decl \<or> locIsInstanceMember decl \<or>
                 isPolymorphicFunctionType (loweredType (Mfunctions s2 ! f))")
    case True
    with tail have "s' = s2" by simp
    with True e01 fn2 show ?thesis by (simp add: nb)
  next
    case plain: False
    with tail have "emitCurryThunks env fe (uncurryLevel ?c)
        (atUncurryLevel ?c (uncurryLevel ?c)) s2 = Inr s'"
      by simp
    note e2 = emitCurryThunks_emits [OF wf2 this]
    from emits_untouched [OF e2 notthunk] fn2
    have same: "functionFor env s' ?c = Mfunctions s2 ! f" by simp
    have "emits env s s'
        ((defaultArgGenerators env decl (parameterLists fe) @ [?main]) @ ?thunks)"
    proof (rule emits_append [OF e01 e2])
      show "set (map fst (defaultArgGenerators env decl (parameterLists fe) @ [?main])) \<inter>
            set (map fst ?thunks) = {}"
        using notthunk notgen thunkkind by auto
    qed
    with plain same show ?thesis by (simp add: nb)
  qed
qed

subsection \<open>Evaluating the small session\<close>

lemmas demo_defs = demoFrontend_def demoModule_def demoClosure_def demoDefault_def
  demoConstructor_def demoCurried_def demoCurriedDecl_def demoMethod_def demoMethodDecl_def
  demoPrototype_def demoProperty_def demoBinding_def

lemmas eval_defs = preEmitFunction_def getFunction_def runSILGenFunction_def postEmitFunction_def
  SILGenFunction_new_def SILGenFunction_delete_def hasValidInsertionPoint_def
  emitEmptyTuple_def emitReturnAndCleanups_def createReturn_def createUnreachable_def
  insertTerminator_def insertInst_def SILGenModule_new_def emitTopLevelFunction_def Let_def
  emitDefaultArgGenerators_def emitDefaultArgGenerator_def declRef_def mkSILDeclRef_def
  getDefaultArgGenerator_def atUncurryLevel_def isVoid_def hasFunction_def
  emitCurryThunk_def argPatterns_def slice1_def isGetterOrSetter_def isInstanceMember_def
  isSettable_def isProperty_def isFuncDecl_def pushCleanup_def appendToBlock_def

section \<open>The claims\<close>

text \<open>
  A run of an emitter either completes (\<open>Inr\<close>) or stops at a failed assertion,
  a verifier failure or a fatal diagnostic (\<open>Inl\<close>). What an emitter produces is
  stated for the runs that complete; each witness below is a run on the small
  session that does. Where a statement speaks of the functions of the module, the
  run starts from a state in which the invariant of the cache holds.
\<close>

text \<open>
  C1. When the emission of a function ends with the builder at a valid insertion
  point: if \<open>hasVoidReturn\<close> is set, the destructor materializes the empty tuple,
  emits every pending cleanup, last pushed first, and returns the empty tuple; if
  it is not set, the destructor emits \<open>unreachable\<close> and nothing else, so no
  return is synthesized. The cleanups are given in the order \<open>as\<close> in which they
  were pushed.
\<close>

theorem SILGenFunction_delete_falls_off_end:
  assumes "Cleanups g0 = []" and "B g0 = Some b"
    and "SILGenFunction_delete (fold pushCleanup as g0) = Inr g'"
  shows "(hasVoidReturn g0 \<longrightarrow>
            g' = (appendToBlock b (TupleInst None [] # map CleanupInst (rev as) @
                                   [ReturnInst None EmptyTupleValue]) g0)\<lparr>B := None\<rparr>) \<and>
         (\<not> hasVoidReturn g0 \<longrightarrow>
            g' = (appendToBlock b [UnreachableInst (getFuncBodySILLocation (location (F g0)))]
                    (fold pushCleanup as g0))\<lparr>B := None\<rparr>)"
proof -
  let ?g = "fold pushCleanup as g0"
  have same: "B ?g = B g0 \<and> hasVoidReturn ?g = hasVoidReturn g0 \<and> F ?g = F g0 \<and>
              epilogBB ?g = epilogBB g0 \<and> ?g = g0\<lparr>Cleanups := rev as @ Cleanups g0\<rparr>"
    by (induction as arbitrary: g0) (simp_all add: pushCleanup_def)
  then have B: "B ?g = Some b" and hv: "hasVoidReturn ?g = hasVoidReturn g0"
    and F: "F ?g = F g0" and cs: "Cleanups ?g = rev as"
    and g: "?g = g0\<lparr>Cleanups := rev as\<rparr>"
    using assms(1,2) by simp_all
  show ?thesis
  proof (cases "hasVoidReturn g0")
    case True
    with hv assms(3) have ep: "epilogBB ?g = None"
      by (auto simp: SILGenFunction_delete_def hasValidInsertionPoint_def B split: if_splits)
    from delete_void [OF B _ ep] True hv assms(3) cs
    have "g' = (appendToBlock b (impliedReturn (rev as)) ?g)\<lparr>B := None, Cleanups := []\<rparr>"
      by simp
    also have "\<dots> = (appendToBlock b (impliedReturn (rev as)) g0)\<lparr>B := None\<rparr>"
      unfolding g using assms(1) by (simp add: appendToBlock_def)
    finally show ?thesis using True by (simp add: impliedReturn_def)
  next
    case False
    with delete_nonvoid [OF B] hv assms(3) F show ?thesis by simp
  qed
qed

text \<open>
  Three cleanups pushed in the order 1, 2, 3 are emitted in the order 3, 2, 1
  before the return; without \<open>hasVoidReturn\<close> the block ends in \<open>unreachable\<close>.
\<close>

theorem SILGenFunction_delete_witness:
  "SILGenFunction_delete (fold pushCleanup [1, 2, 3] (SILGenFunction_new (emitTopLevelFunction demoFrontend) True)) =
     Inr ((appendToBlock 0 [TupleInst None [], CleanupInst 3, CleanupInst 2, CleanupInst 1,
                            ReturnInst None EmptyTupleValue]
            (SILGenFunction_new (emitTopLevelFunction demoFrontend) True))\<lparr>B := None\<rparr>) \<and>
   SILGenFunction_delete (fold pushCleanup [1, 2, 3] (SILGenFunction_new (emitTopLevelFunction demoFrontend) False)) =
     Inr ((appendToBlock 0 [UnreachableInst None]
            (fold pushCleanup [1, 2, 3] (SILGenFunction_new (emitTopLevelFunction demoFrontend) False)))\<lparr>B := None\<rparr>)"
proof -
  let ?v = "SILGenFunction_new (emitTopLevelFunction demoFrontend) True"
  let ?n = "SILGenFunction_new (emitTopLevelFunction demoFrontend) False"
  have v: "SILGenFunction_delete (fold pushCleanup [1, 2, 3] ?v) =
           Inr (projr (SILGenFunction_delete (fold pushCleanup [1, 2, 3] ?v)))"
    by (simp add: eval_defs demo_defs)
  have n: "SILGenFunction_delete (fold pushCleanup [1, 2, 3] ?n) =
           Inr (projr (SILGenFunction_delete (fold pushCleanup [1, 2, 3] ?n)))"
    by (simp add: eval_defs demo_defs)
  have cv: "Cleanups ?v = []" and bv: "B ?v = Some 0" and hv: "hasVoidReturn ?v"
    by (simp_all add: eval_defs)
  have cn: "Cleanups ?n = []" and bn: "B ?n = Some 0" and hn: "\<not> hasVoidReturn ?n"
    by (simp_all add: eval_defs)
  from SILGenFunction_delete_falls_off_end [OF cv bv v] hv
  have "projr (SILGenFunction_delete (fold pushCleanup [1, 2, 3] ?v)) =
     (appendToBlock 0 [TupleInst None [], CleanupInst 3, CleanupInst 2, CleanupInst 1,
                            ReturnInst None EmptyTupleValue] ?v)\<lparr>B := None\<rparr>"
    by simp
  with v have 1: "SILGenFunction_delete (fold pushCleanup [1, 2, 3] ?v) =
     Inr ((appendToBlock 0 [TupleInst None [], CleanupInst 3, CleanupInst 2, CleanupInst 1,
                            ReturnInst None EmptyTupleValue] ?v)\<lparr>B := None\<rparr>)"
    by simp
  from SILGenFunction_delete_falls_off_end [OF cn bn n] hn
  have "projr (SILGenFunction_delete (fold pushCleanup [1, 2, 3] ?n)) =
     (appendToBlock 0 [UnreachableInst (getFuncBodySILLocation (location (F ?n)))]
        (fold pushCleanup [1, 2, 3] ?n))\<lparr>B := None\<rparr>"
    by simp
  moreover have "getFuncBodySILLocation (location (F ?n)) = None"
    by (simp add: eval_defs)
  ultimately have "projr (SILGenFunction_delete (fold pushCleanup [1, 2, 3] ?n)) =
     (appendToBlock 0 [UnreachableInst None] (fold pushCleanup [1, 2, 3] ?n))\<lparr>B := None\<rparr>"
    by simp
  with n have 2: "SILGenFunction_delete (fold pushCleanup [1, 2, 3] ?n) =
     Inr ((appendToBlock 0 [UnreachableInst None] (fold pushCleanup [1, 2, 3] ?n))\<lparr>B := None\<rparr>)"
    by simp
  from 1 2 show ?thesis by (rule conjI)
qed

text \<open>
  C2. Emitting a constructor first emits the default-argument generators of its
  argument pattern. After them, for a class it emits exactly two functions, the
  allocator and the initializer, under two distinct declaration references and
  both built with \<open>hasVoidReturn\<close> set; for a value type it emits exactly one,
  under the constructor's reference and built with \<open>hasVoidReturn\<close> set. Each
  of these functions is cached under its reference, is the function its
  \<open>SILGenFunction\<close> built, and has a body; no other function of the module
  changes.
\<close>

theorem emitConstructor_functions:
  assumes "wellFormed s" and "emitConstructor env decl s = Inr s'"
  shows "emits env s s'
           (defaultArgGenerators env (LocValueDecl (cdDecl decl)) [getArguments decl] @
            (if thisIsClass decl
             then [(allocatorRef decl, Some (ConstructorDeclNode decl), True,
                    EmitClassConstructorAllocator decl),
                   (initializerRef decl, Some (ConstructorDeclNode decl), True,
                    EmitClassConstructorInitializer decl)]
             else [(allocatorRef decl, Some (ConstructorDeclNode decl), True,
                    EmitValueConstructor decl)])) \<and>
         allocatorRef decl \<noteq> initializerRef decl"
proof -
  let ?d = "LocValueDecl (cdDecl decl)"
  let ?n = "Some (ConstructorDeclNode decl)"
  let ?gens = "defaultArgGenerators env ?d [getArguments decl]"
  from assms(2) obtain s0 f s1 where
    gens: "emitDefaultArgGenerators env ?d [getArguments decl] s = Inr s0" and
    pre: "preEmitFunction env (declRef ?d) ?n s0 = Inr (f, s1)"
    by (auto simp: emitConstructor_def bindE_eq_Inr)
  note e0 = emitDefaultArgGenerators_emits [OF assms(1) gens]
  note wf0 = emits_wellFormed [OF e0]
  have distinct: "declRef ?d \<noteq> mkSILDeclRef ?d Initializer False"
    by (auto simp: declRef_def mkSILDeclRef_def split: DeclKind.splits)
  have genkind: "c \<in> fst ` set ?gens \<Longrightarrow> kind c = DefaultArgGenerator" for c
    unfolding defaultArgGenerators_def by (drule generatorsFrom_refs) simp
  have notgen: "declRef ?d \<notin> fst ` set ?gens"
    "mkSILDeclRef ?d Initializer False \<notin> fst ` set ?gens"
    using genkind [of "declRef ?d"] genkind [of "mkSILDeclRef ?d Initializer False"]
      declRef_kind [of ?d]
    by (auto simp: mkSILDeclRef_def)
  show ?thesis
  proof (cases "thisIsClass decl")
    case True
    with assms(2) gens pre obtain s2 s3 initF s4 s5 where
      run: "runSILGenFunction env f True (EmitClassConstructorAllocator decl) s1 = Inr s2" and
      post: "postEmitFunction env (declRef ?d) f s2 = Inr s3" and
      pre2: "preEmitFunction env (mkSILDeclRef ?d Initializer False) ?n s3 = Inr (initF, s4)" and
      run2: "runSILGenFunction env initF True (EmitClassConstructorInitializer decl) s4 = Inr s5" and
      post2: "postEmitFunction env (mkSILDeclRef ?d Initializer False) initF s5 = Inr s'"
      by (auto simp: emitConstructor_def bindE_eq_Inr)
    note e1 = protocol_emits [OF wf0 pre run post]
    note e2 = protocol_emits [OF emits_wellFormed [OF e1] pre2 run2 post2]
    have e12: "emits env s0 s'
        ([(declRef ?d, ?n, True, EmitClassConstructorAllocator decl)] @
         [(mkSILDeclRef ?d Initializer False, ?n, True, EmitClassConstructorInitializer decl)])"
      by (rule emits_append [OF e1 e2]) (use distinct in simp)
    have "emits env s s'
        (?gens @ [(declRef ?d, ?n, True, EmitClassConstructorAllocator decl)] @
         [(mkSILDeclRef ?d Initializer False, ?n, True, EmitClassConstructorInitializer decl)])"
      by (rule emits_append [OF e0 e12]) (use notgen in auto)
    with True distinct show ?thesis by simp
  next
    case False
    with assms(2) gens pre obtain s2 where
      run: "runSILGenFunction env f True (EmitValueConstructor decl) s1 = Inr s2" and
      post: "postEmitFunction env (declRef ?d) f s2 = Inr s'"
      by (auto simp: emitConstructor_def bindE_eq_Inr)
    note e1 = protocol_emits [OF wf0 pre run post]
    have "emits env s s' (?gens @ [(declRef ?d, ?n, True, EmitValueConstructor decl)])"
      by (rule emits_append [OF e0 e1]) (use notgen in auto)
    with False distinct show ?thesis by simp
  qed
qed

text \<open>
  The scenario of the specification: a class whose constructor has two arguments,
  the second with a default value, yields the generator, the allocator and the
  initializer, in this order, as the functions 1, 2 and 3 of the module; the
  generator ends in \<open>unreachable\<close>, allocator and initializer return the empty
  tuple.
\<close>

theorem emitConstructor_functions_witness:
  "wellFormed demoModule \<and>
   emitConstructor demoFrontend demoConstructor demoModule =
     Inr (projr (emitConstructor demoFrontend demoConstructor demoModule)) \<and>
   thisIsClass demoConstructor \<and>
   emits demoFrontend demoModule (projr (emitConstructor demoFrontend demoConstructor demoModule))
     [(getDefaultArgGenerator (LocValueDecl (cdDecl demoConstructor)) 1,
       Some (ExprNode demoDefault), False,
       EmitGeneratorFunction (getDefaultArgGenerator (LocValueDecl (cdDecl demoConstructor)) 1)
         demoDefault),
      (allocatorRef demoConstructor, Some (ConstructorDeclNode demoConstructor), True,
       EmitClassConstructorAllocator demoConstructor),
      (initializerRef demoConstructor, Some (ConstructorDeclNode demoConstructor), True,
       EmitClassConstructorInitializer demoConstructor)] \<and>
   length (Mfunctions demoModule) = 1 \<and>
   length (Mfunctions (projr (emitConstructor demoFrontend demoConstructor demoModule))) = 4 \<and>
   map (emittedFunctions (projr (emitConstructor demoFrontend demoConstructor demoModule)))
     [getDefaultArgGenerator (LocValueDecl (cdDecl demoConstructor)) 1,
      allocatorRef demoConstructor, initializerRef demoConstructor] = [Some 1, Some 2, Some 3] \<and>
   map blocks (tl (Mfunctions (projr (emitConstructor demoFrontend demoConstructor demoModule)))) =
     [[[UnreachableInst None]],
      [[TupleInst None [], ReturnInst None EmptyTupleValue]],
      [[TupleInst None [], ReturnInst None EmptyTupleValue]]]"
proof -
  let ?t = "projr (emitConstructor demoFrontend demoConstructor demoModule)"
  have wf: "wellFormed demoModule"
    by (simp add: demoModule_def wellFormed_new)
  have ok: "emitConstructor demoFrontend demoConstructor demoModule = Inr ?t"
    by (simp add: emitConstructor_def eval_defs demo_defs)
  have gens: "defaultArgGenerators demoFrontend (LocValueDecl (cdDecl demoConstructor))
       [getArguments demoConstructor] =
     [(getDefaultArgGenerator (LocValueDecl (cdDecl demoConstructor)) 1,
       Some (ExprNode demoDefault), False,
       EmitGeneratorFunction (getDefaultArgGenerator (LocValueDecl (cdDecl demoConstructor)) 1)
         demoDefault)]"
    by (simp add: defaultArgGenerators_def generatorsFrom_def flattenParams_def
        demoFrontend_def demoConstructor_def demoDefault_def isVoid_def)
  have cls: "thisIsClass demoConstructor"
    by (simp add: demoConstructor_def)
  from emitConstructor_functions [OF wf ok, THEN conjunct1] gens cls
  have made: "emits demoFrontend demoModule ?t
     [(getDefaultArgGenerator (LocValueDecl (cdDecl demoConstructor)) 1,
       Some (ExprNode demoDefault), False,
       EmitGeneratorFunction (getDefaultArgGenerator (LocValueDecl (cdDecl demoConstructor)) 1)
         demoDefault),
      (allocatorRef demoConstructor, Some (ConstructorDeclNode demoConstructor), True,
       EmitClassConstructorAllocator demoConstructor),
      (initializerRef demoConstructor, Some (ConstructorDeclNode demoConstructor), True,
       EmitClassConstructorInitializer demoConstructor)]"
    by simp
  have before: "length (Mfunctions demoModule) = 1"
    by (simp add: eval_defs demo_defs)
  have after: "length (Mfunctions ?t) = 4"
    by (simp add: emitConstructor_def eval_defs demo_defs)
  have cache: "map (emittedFunctions ?t)
     [getDefaultArgGenerator (LocValueDecl (cdDecl demoConstructor)) 1,
      allocatorRef demoConstructor, initializerRef demoConstructor] = [Some 1, Some 2, Some 3]"
    by (simp add: emitConstructor_def eval_defs demo_defs)
  have bodies: "map blocks (tl (Mfunctions ?t)) =
     [[[UnreachableInst None]],
      [[TupleInst None [], ReturnInst None EmptyTupleValue]],
      [[TupleInst None [], ReturnInst None EmptyTupleValue]]]"
    by (simp add: emitConstructor_def eval_defs demo_defs)
  from wf ok cls made before after cache bodies show ?thesis
    by (intro conjI)
qed

text \<open>
  C3. Emitting a function with a body emits the default-argument generators and
  the main body, and then, when the declaration is neither a getter or setter nor
  an instance member and the lowered type of the emitted function is not
  polymorphic, one curry thunk for every uncurry level below that of the
  function's reference, from the highest level down to 0, the thunk of level \<open>k\<close>
  forwarding to the entry point of level \<open>k + 1\<close>: as many thunks as the uncurry
  level. In the three other cases no thunk is emitted. The emitted function is
  the one the module holds for the function's reference when the run is over.
\<close>

theorem emitFunction_thunk_functions:
  assumes "wellFormed s" and "emitFunction env decl fe s = Inr s'" and "feBody fe \<noteq> None"
  shows "emits env s s'
           (defaultArgGenerators env decl (parameterLists fe) @
            (declRef decl, Some (FuncExprNode fe), isVoid (feResultType fe), EmitFunction fe) #
            (if locIsGetterOrSetter decl \<or> locIsInstanceMember decl \<or>
                isPolymorphicFunctionType (loweredType (functionFor env s' (declRef decl)))
             then []
             else curryThunks fe (declRef decl) (uncurryLevel (declRef decl)))) \<and>
         length (curryThunks fe (declRef decl) (uncurryLevel (declRef decl))) =
           uncurryLevel (declRef decl)"
proof -
  from assms(3) have nb: "(feBody fe = None) = False" by simp
  from emitFunction_emits [OF assms(1,2)] show ?thesis
    by (simp add: nb curryThunks_length)
qed

text \<open>
  The scenario of the specification: a module-level function with three curried
  argument lists and no generics is emitted at uncurry level 2 and is followed by
  two thunks, level 1 forwarding to level 2 and level 0 forwarding to level 1.
  The module gets three functions, each ending in \<open>unreachable\<close>.
\<close>

theorem emitFunction_thunk_functions_witness:
  "wellFormed demoModule \<and>
   emitFunction demoFrontend (LocValueDecl demoCurriedDecl) demoCurried demoModule =
     Inr (projr (emitFunction demoFrontend (LocValueDecl demoCurriedDecl) demoCurried demoModule)) \<and>
   feBody demoCurried \<noteq> None \<and>
   length (getArgParamPatterns demoCurried) = 3 \<and>
   uncurryLevel (declRef (LocValueDecl demoCurriedDecl)) = 2 \<and>
   emits demoFrontend demoModule
     (projr (emitFunction demoFrontend (LocValueDecl demoCurriedDecl) demoCurried demoModule))
     [(declRef (LocValueDecl demoCurriedDecl), Some (FuncExprNode demoCurried), False,
       EmitFunction demoCurried),
      (atUncurryLevel (declRef (LocValueDecl demoCurriedDecl)) 1, Some (FuncExprNode demoCurried),
       False,
       EmitCurryThunk demoCurried (atUncurryLevel (declRef (LocValueDecl demoCurriedDecl)) 1)
         (declRef (LocValueDecl demoCurriedDecl))),
      (atUncurryLevel (declRef (LocValueDecl demoCurriedDecl)) 0, Some (FuncExprNode demoCurried),
       False,
       EmitCurryThunk demoCurried (atUncurryLevel (declRef (LocValueDecl demoCurriedDecl)) 0)
         (atUncurryLevel (declRef (LocValueDecl demoCurriedDecl)) 1))] \<and>
   length (Mfunctions demoModule) = 1 \<and>
   length (Mfunctions
     (projr (emitFunction demoFrontend (LocValueDecl demoCurriedDecl) demoCurried demoModule))) = 4 \<and>
   map (emittedFunctions
          (projr (emitFunction demoFrontend (LocValueDecl demoCurriedDecl) demoCurried demoModule)))
     [declRef (LocValueDecl demoCurriedDecl),
      atUncurryLevel (declRef (LocValueDecl demoCurriedDecl)) 1,
      atUncurryLevel (declRef (LocValueDecl demoCurriedDecl)) 0] = [Some 1, Some 2, Some 3] \<and>
   map blocks (tl (Mfunctions
     (projr (emitFunction demoFrontend (LocValueDecl demoCurriedDecl) demoCurried demoModule)))) =
     [[[UnreachableInst (Some (BodyNode 4))]],
      [[UnreachableInst (Some (BodyNode 4))]],
      [[UnreachableInst (Some (BodyNode 4))]]]"
proof -
  let ?c = "declRef (LocValueDecl demoCurriedDecl)"
  let ?t = "projr (emitFunction demoFrontend (LocValueDecl demoCurriedDecl) demoCurried demoModule)"
  have wf: "wellFormed demoModule"
    by (simp add: demoModule_def wellFormed_new)
  have ok: "emitFunction demoFrontend (LocValueDecl demoCurriedDecl) demoCurried demoModule = Inr ?t"
    by (simp add: emitFunction_def eval_defs demo_defs)
  have body: "feBody demoCurried \<noteq> None" and lists: "length (getArgParamPatterns demoCurried) = 3"
    by (simp_all add: demoCurried_def)
  have level: "uncurryLevel ?c = 2"
    by (simp add: declRef_def mkSILDeclRef_def demoCurriedDecl_def demoCurried_def)
  have gens: "defaultArgGenerators demoFrontend (LocValueDecl demoCurriedDecl)
      (parameterLists demoCurried) = []"
    by (simp add: defaultArgGenerators_def generatorsFrom_def flattenParams_def
        parameterLists_def demoCurried_def demoFrontend_def)
  have plain: "\<not> locIsGetterOrSetter (LocValueDecl demoCurriedDecl)"
      "\<not> locIsInstanceMember (LocValueDecl demoCurriedDecl)"
      "isVoid (feResultType demoCurried) = False"
    by (simp_all add: isGetterOrSetter_def isInstanceMember_def demoCurriedDecl_def isVoid_def
        demoCurried_def)
  have mono: "\<not> isPolymorphicFunctionType (loweredType (functionFor demoFrontend ?t ?c))"
    by (simp add: functionFor_def emitFunction_def eval_defs demo_defs)
  have top: "atUncurryLevel ?c 2 = ?c"
    using atUncurryLevel_self [of ?c] by (simp only: level)
  have thunks: "curryThunks demoCurried ?c 2 =
     [(atUncurryLevel ?c 1, Some (FuncExprNode demoCurried), False,
       EmitCurryThunk demoCurried (atUncurryLevel ?c 1) ?c),
      (atUncurryLevel ?c 0, Some (FuncExprNode demoCurried), False,
       EmitCurryThunk demoCurried (atUncurryLevel ?c 0) (atUncurryLevel ?c 1))]"
    using plain(3) top by (simp add: curryThunks_def numeral_2_eq_2)
  from emitFunction_thunk_functions [OF wf ok body, THEN conjunct1] gens plain mono level thunks
  have made: "emits demoFrontend demoModule ?t
     [(?c, Some (FuncExprNode demoCurried), False, EmitFunction demoCurried),
      (atUncurryLevel ?c 1, Some (FuncExprNode demoCurried), False,
       EmitCurryThunk demoCurried (atUncurryLevel ?c 1) ?c),
      (atUncurryLevel ?c 0, Some (FuncExprNode demoCurried), False,
       EmitCurryThunk demoCurried (atUncurryLevel ?c 0) (atUncurryLevel ?c 1))]"
    by simp
  have before: "length (Mfunctions demoModule) = 1"
    by (simp add: eval_defs demo_defs)
  have after: "length (Mfunctions ?t) = 4"
    by (simp add: emitFunction_def eval_defs demo_defs)
  have cache: "map (emittedFunctions ?t) [?c, atUncurryLevel ?c 1, atUncurryLevel ?c 0] =
      [Some 1, Some 2, Some 3]"
    by (simp add: emitFunction_def eval_defs demo_defs)
  have bodies: "map blocks (tl (Mfunctions ?t)) =
     [[[UnreachableInst (Some (BodyNode 4))]],
      [[UnreachableInst (Some (BodyNode 4))]],
      [[UnreachableInst (Some (BodyNode 4))]]]"
    by (simp add: emitFunction_def eval_defs demo_defs)
  from wf ok body lists level made before after cache bodies show ?thesis
    by (intro conjI)
qed

text \<open>
  C4. The pre-emission step fails, with the assertion ``already emitted
  function?!'', exactly when the function cached for the reference has a body.
  After an emission of a reference has completed, starting another one for the
  same reference therefore fails; emitting the same closure twice is an
  instance. The foreign-interop thunks are the exception: when an entry exists
  for the thunk's reference (for a property, the getter's), the request returns
  without a change, so a repeated request is tolerated.
\<close>

theorem second_emission_rejected:
  "(preEmitFunction env r n s = Inl e \<longleftrightarrow>
      e = AssertionFailed ''already emitted function?!'' \<and> emittedBody s r) \<and>
   (preEmitFunction env r n s = Inr (f, s1) \<longrightarrow>
    runSILGenFunction env f hv job s1 = Inr s2 \<longrightarrow>
    postEmitFunction env r f s2 = Inr s3 \<longrightarrow>
      preEmitFunction env r n' s3 = Inl (AssertionFailed ''already emitted function?!'')) \<and>
   (emitClosure env ce s = Inr ta \<longrightarrow>
      emitClosure env ce ta = Inl (AssertionFailed ''already emitted function?!'')) \<and>
   (hasFunction s (methodThunk md) \<longrightarrow> emitObjCMethodThunk env md s = Inr s) \<and>
   (emitObjCMethodThunk env md s = Inr tb \<longrightarrow> emitObjCMethodThunk env md tb = Inr tb) \<and>
   (hasFunction s (getterThunk p) \<longrightarrow>
      emitObjCPropertyMethodThunks env p s = Inr s) \<and>
   (emitObjCPropertyMethodThunks env p s = Inr tc \<longrightarrow>
      emitObjCPropertyMethodThunks env p tc = Inr tc)"
proof (intro conjI impI)
  show "preEmitFunction env r n s = Inl e \<longleftrightarrow>
      e = AssertionFailed ''already emitted function?!'' \<and> emittedBody s r"
    by (rule preEmitFunction_fails_iff)
next
  assume "preEmitFunction env r n s = Inr (f, s1)"
    "runSILGenFunction env f hv job s1 = Inr s2"
    "postEmitFunction env r f s2 = Inr s3"
  then have "emittedBody s3 r" by (rule protocol_emittedBody)
  then show "preEmitFunction env r n' s3 = Inl (AssertionFailed ''already emitted function?!'')"
    by (rule emittedBody_rejects)
next
  assume "emitClosure env ce s = Inr ta"
  then have "emittedBody ta (declRef (LocClosureExpr ce))"
    unfolding emitClosure_def by (rule protocol_emittedBody')
  then show "emitClosure env ce ta = Inl (AssertionFailed ''already emitted function?!'')"
    by (simp add: emitClosure_def emittedBody_rejects)
next
  assume "hasFunction s (methodThunk md)"
  then show "emitObjCMethodThunk env md s = Inr s"
    by (simp add: emitObjCMethodThunk_def Let_def)
next
  assume ok: "emitObjCMethodThunk env md s = Inr tb"
  show "emitObjCMethodThunk env md tb = Inr tb"
  proof (cases "hasFunction s (methodThunk md)")
    case True
    with ok show ?thesis by (simp add: emitObjCMethodThunk_def Let_def)
  next
    case False
    with ok have "emittedBody tb (methodThunk md)"
      by (auto simp: emitObjCMethodThunk_def Let_def intro: protocol_emittedBody')
    then have "hasFunction tb (methodThunk md)" by (rule emittedBody_hasFunction)
    then show ?thesis by (simp add: emitObjCMethodThunk_def Let_def)
  qed
next
  assume "hasFunction s (mkSILDeclRef (LocValueDecl p) Getter True)"
  then show "emitObjCPropertyMethodThunks env p s = Inr s"
    by (simp add: emitObjCPropertyMethodThunks_def Let_def)
next
  assume ok: "emitObjCPropertyMethodThunks env p s = Inr tc"
  let ?getter = "mkSILDeclRef (LocValueDecl p) Getter True"
  show "emitObjCPropertyMethodThunks env p tc = Inr tc"
  proof (cases "hasFunction s ?getter")
    case True
    with ok show ?thesis by (simp add: emitObjCPropertyMethodThunks_def Let_def)
  next
    case False
    from emitObjCPropertyMethodThunks_steps [OF ok False] obtain s3 where
      getter: "bindE (preEmitFunction env ?getter (Some (VarDeclNode p)) s)
       (\<lambda>(f, s1). bindE (runSILGenFunction env f False (EmitObjCPropertyGetter ?getter) s1)
         (postEmitFunction env ?getter f)) = Inr s3" and
      setter: "if isSettable p
      then bindE (preEmitFunction env (mkSILDeclRef (LocValueDecl p) Setter True) (Some (VarDeclNode p)) s3)
       (\<lambda>(f, s1). bindE (runSILGenFunction env f False
           (EmitObjCPropertySetter (mkSILDeclRef (LocValueDecl p) Setter True)) s1)
         (postEmitFunction env (mkSILDeclRef (LocValueDecl p) Setter True) f)) = Inr tc
      else tc = s3"
      by blast
    have "hasFunction s3 ?getter"
      using protocol_emittedBody' [OF getter] by (rule emittedBody_hasFunction)
    with setter have "hasFunction tc ?getter"
      by (auto split: if_splits intro: protocol_hasFunction)
    then show ?thesis by (simp add: emitObjCPropertyMethodThunks_def Let_def)
  qed
qed

text \<open>
  On the small session: a closure emitted twice stops at the assertion; a method
  thunk and the thunks of a property requested twice are skipped the second
  time.
\<close>

theorem second_emission_rejected_witness:
  "emitClosure demoFrontend demoClosure demoModule =
     Inr (projr (emitClosure demoFrontend demoClosure demoModule)) \<and>
   emittedBody (projr (emitClosure demoFrontend demoClosure demoModule))
     (declRef (LocClosureExpr demoClosure)) \<and>
   preEmitFunction demoFrontend (declRef (LocClosureExpr demoClosure)) None
     (projr (emitClosure demoFrontend demoClosure demoModule)) =
     Inl (AssertionFailed ''already emitted function?!'') \<and>
   emitClosure demoFrontend demoClosure (projr (emitClosure demoFrontend demoClosure demoModule)) =
     Inl (AssertionFailed ''already emitted function?!'') \<and>
   preEmitFunction demoFrontend (declRef (LocClosureExpr demoClosure)) None demoModule =
     Inr (1, snd (projr (preEmitFunction demoFrontend (declRef (LocClosureExpr demoClosure)) None
                            demoModule))) \<and>
   runSILGenFunction demoFrontend 1 False (EmitClosure demoClosure)
     (snd (projr (preEmitFunction demoFrontend (declRef (LocClosureExpr demoClosure)) None demoModule))) =
     Inr (projr (runSILGenFunction demoFrontend 1 False (EmitClosure demoClosure)
       (snd (projr (preEmitFunction demoFrontend (declRef (LocClosureExpr demoClosure)) None
                      demoModule))))) \<and>
   postEmitFunction demoFrontend (declRef (LocClosureExpr demoClosure)) 1
     (projr (runSILGenFunction demoFrontend 1 False (EmitClosure demoClosure)
       (snd (projr (preEmitFunction demoFrontend (declRef (LocClosureExpr demoClosure)) None
                      demoModule))))) =
     Inr (projr (runSILGenFunction demoFrontend 1 False (EmitClosure demoClosure)
       (snd (projr (preEmitFunction demoFrontend (declRef (LocClosureExpr demoClosure)) None
                      demoModule))))) \<and>
   preEmitFunction demoFrontend (declRef (LocClosureExpr demoClosure)) None
     (projr (runSILGenFunction demoFrontend 1 False (EmitClosure demoClosure)
       (snd (projr (preEmitFunction demoFrontend (declRef (LocClosureExpr demoClosure)) None
                      demoModule))))) =
     Inl (AssertionFailed ''already emitted function?!'') \<and>
   emitObjCMethodThunk demoFrontend demoMethodDecl demoModule =
     Inr (projr (emitObjCMethodThunk demoFrontend demoMethodDecl demoModule)) \<and>
   hasFunction (projr (emitObjCMethodThunk demoFrontend demoMethodDecl demoModule))
     (methodThunk demoMethodDecl) \<and>
   emitObjCMethodThunk demoFrontend demoMethodDecl
     (projr (emitObjCMethodThunk demoFrontend demoMethodDecl demoModule)) =
     Inr (projr (emitObjCMethodThunk demoFrontend demoMethodDecl demoModule)) \<and>
   emitObjCPropertyMethodThunks demoFrontend demoProperty demoModule =
     Inr (projr (emitObjCPropertyMethodThunks demoFrontend demoProperty demoModule)) \<and>
   hasFunction (projr (emitObjCPropertyMethodThunks demoFrontend demoProperty demoModule))
     (getterThunk demoProperty) \<and>
   emitObjCPropertyMethodThunks demoFrontend demoProperty
     (projr (emitObjCPropertyMethodThunks demoFrontend demoProperty demoModule)) =
     Inr (projr (emitObjCPropertyMethodThunks demoFrontend demoProperty demoModule))"
proof -
  let ?c = "declRef (LocClosureExpr demoClosure)"
  let ?t = "projr (emitClosure demoFrontend demoClosure demoModule)"
  let ?s1 = "snd (projr (preEmitFunction demoFrontend ?c None demoModule))"
  let ?s2 = "projr (runSILGenFunction demoFrontend 1 False (EmitClosure demoClosure) ?s1)"
  let ?u = "projr (emitObjCMethodThunk demoFrontend demoMethodDecl demoModule)"
  let ?v = "projr (emitObjCPropertyMethodThunks demoFrontend demoProperty demoModule)"
  note rejected = second_emission_rejected
    [where env = demoFrontend and ce = demoClosure and md = demoMethodDecl
       and p = demoProperty and r = ?c and n = None]
  have closure: "emitClosure demoFrontend demoClosure demoModule = Inr ?t"
    by (simp add: emitClosure_def eval_defs demo_defs)
  have thunk: "emitObjCMethodThunk demoFrontend demoMethodDecl demoModule = Inr ?u"
    by (simp add: emitObjCMethodThunk_def eval_defs demo_defs)
  have property: "emitObjCPropertyMethodThunks demoFrontend demoProperty demoModule = Inr ?v"
    by (simp add: emitObjCPropertyMethodThunks_def eval_defs demo_defs)
  have 1: "emitClosure demoFrontend demoClosure ?t = Inl (AssertionFailed ''already emitted function?!'')"
    by (rule rejected [where s = demoModule and ta = ?t,
          THEN conjunct2, THEN conjunct2, THEN conjunct1, THEN mp, OF closure])
  have body: "emittedBody ?t ?c"
    by (simp add: emittedBody_def emitClosure_def eval_defs demo_defs)
  then have 2: "preEmitFunction demoFrontend ?c None ?t = Inl (AssertionFailed ''already emitted function?!'')"
    by (simp only: rejected [where s = ?t and e = "AssertionFailed ''already emitted function?!''",
          THEN conjunct1] simp_thms)
  have pre: "preEmitFunction demoFrontend ?c None demoModule = Inr (1, ?s1)"
    by (simp add: eval_defs demo_defs)
  have run: "runSILGenFunction demoFrontend 1 False (EmitClosure demoClosure) ?s1 = Inr ?s2"
    by (simp add: eval_defs demo_defs)
  have post: "postEmitFunction demoFrontend ?c 1 ?s2 = Inr ?s2"
    by (simp add: eval_defs demo_defs)
  have again: "preEmitFunction demoFrontend ?c None ?s2 = Inl (AssertionFailed ''already emitted function?!'')"
    by (rule rejected [where s = demoModule and n' = None,
          THEN conjunct2, THEN conjunct1, THEN mp, THEN mp, THEN mp, OF pre run post])
  have known: "hasFunction ?u (methodThunk demoMethodDecl)"
    by (simp add: emitObjCMethodThunk_def eval_defs demo_defs)
  have 3: "emitObjCMethodThunk demoFrontend demoMethodDecl ?u = Inr ?u"
    by (rule rejected [where s = ?u,
          THEN conjunct2, THEN conjunct2, THEN conjunct2, THEN conjunct1, THEN mp, OF known])
  have twice: "emitObjCMethodThunk demoFrontend demoMethodDecl ?u = Inr ?u"
    by (rule rejected [where s = demoModule and tb = ?u,
          THEN conjunct2, THEN conjunct2, THEN conjunct2, THEN conjunct2, THEN conjunct1,
          THEN mp, OF thunk])
  have getter: "hasFunction ?v (getterThunk demoProperty)"
    by (simp add: emitObjCPropertyMethodThunks_def eval_defs demo_defs)
  have 4: "emitObjCPropertyMethodThunks demoFrontend demoProperty ?v = Inr ?v"
    by (rule rejected [where s = ?v,
          THEN conjunct2, THEN conjunct2, THEN conjunct2, THEN conjunct2, THEN conjunct2,
          THEN conjunct1, THEN mp, OF getter])
  have twice': "emitObjCPropertyMethodThunks demoFrontend demoProperty ?v = Inr ?v"
    by (rule rejected [where s = demoModule and tc = ?v,
          THEN conjunct2, THEN conjunct2, THEN conjunct2, THEN conjunct2, THEN conjunct2,
          THEN conjunct2, THEN mp, OF property])
  show ?thesis
    by (intro conjI closure body 2 1 pre run post again thunk known 3 property getter 4)
qed

text \<open>
  C5. A bridging function that is not cached yet is looked up in the named
  module, and the session is aborted with a diagnostic in exactly these cases:
  the module is not found (missing module), the lookup has no result (missing
  function), it has more than one (overloaded), its single result is not a
  function declaration (not a function), or the lowered input types or the
  result type of the function differ from the expected ones (not the correct
  type). Every diagnostic carries the module and the function name. In every
  other case the function found is returned and stored in the cache slot.
\<close>

theorem getBridgingFn_outcomes:
  "(fatal bridging_module_missing m fn (getBridgingFn env None m fn ins out) =
      (forModuleAndName env m fn = None)) \<and>
   (fatal bridging_function_missing m fn (getBridgingFn env None m fn ins out) =
      (\<exists>lk. forModuleAndName env m fn = Some lk \<and> Results lk = [])) \<and>
   (fatal bridging_function_overloaded m fn (getBridgingFn env None m fn ins out) =
      (\<exists>lk. forModuleAndName env m fn = Some lk \<and> length (Results lk) > 1)) \<and>
   (fatal bridging_function_not_function m fn (getBridgingFn env None m fn ins out) =
      (\<exists>lk x. forModuleAndName env m fn = Some lk \<and> Results lk = [x] \<and> foundFunction x = None)) \<and>
   (fatal bridging_function_not_correct_type m fn (getBridgingFn env None m fn ins out) =
      (\<exists>lk x d. forModuleAndName env m fn = Some lk \<and> Results lk = [x] \<and>
         foundFunction x = Some d \<and> signatureOf env d \<noteq> (ins, out))) \<and>
   ((getBridgingFn env None m fn ins out = Inr (Some c, c)) =
      (\<exists>lk x d. forModuleAndName env m fn = Some lk \<and> Results lk = [x] \<and>
         foundFunction x = Some d \<and> signatureOf env d = (ins, out) \<and>
         c = declRef (LocValueDecl d))) \<and>
   (case getBridgingFn env None m fn ins out of
      Inl e \<Rightarrow> \<exists>l k. e = FatalDiagnostic l k m fn
    | Inr (slot, found) \<Rightarrow> slot = Some found)"
  unfolding getBridgingFn_def fatal_def lookupBridgingFn_cases
  by (auto split: option.splits list.splits if_splits)

text \<open>
  The scenario of the specification: the foreign module exists and the function
  takes two parameters instead of one. A module that does not exist is reported
  as missing.
\<close>

theorem getBridgingFn_outcomes_witness:
  "fatal bridging_function_not_correct_type ''Foundation'' ''convertStringToNSString''
     (getBridgingFn demoFrontend None ''Foundation'' ''convertStringToNSString''
        [LValueType (NominalType ''String'')] (NominalType ''NSString'')) \<and>
   fatal bridging_module_missing ''ObjectiveC'' ''convertBoolToObjCBool''
     (getBridgingFn demoFrontend None ''ObjectiveC'' ''convertBoolToObjCBool''
        [NominalType ''Bool''] (NominalType ''ObjCBool''))"
proof -
  have "forModuleAndName demoFrontend ''ObjectiveC'' ''convertBoolToObjCBool'' = None"
    by (simp add: demoFrontend_def)
  with getBridgingFn_outcomes [of "''ObjectiveC''" "''convertBoolToObjCBool''" demoFrontend
      "[NominalType ''Bool'']" "NominalType ''ObjCBool''"]
  have 1: "fatal bridging_module_missing ''ObjectiveC'' ''convertBoolToObjCBool''
     (getBridgingFn demoFrontend None ''ObjectiveC'' ''convertBoolToObjCBool''
        [NominalType ''Bool''] (NominalType ''ObjCBool''))"
    by (simp only: simp_thms)
  obtain lk x d where
    "forModuleAndName demoFrontend ''Foundation'' ''convertStringToNSString'' = Some lk"
    "Results lk = [x]" "foundFunction x = Some d"
    "signatureOf demoFrontend d \<noteq> ([LValueType (NominalType ''String'')], NominalType ''NSString'')"
    by (simp add: demoFrontend_def foundFunction_def isFuncDecl_def signatureOf_def)
  with getBridgingFn_outcomes [of "''Foundation''" "''convertStringToNSString''" demoFrontend
      "[LValueType (NominalType ''String'')]" "NominalType ''NSString''"]
  have 2: "fatal bridging_function_not_correct_type ''Foundation'' ''convertStringToNSString''
     (getBridgingFn demoFrontend None ''Foundation'' ''convertStringToNSString''
        [LValueType (NominalType ''String'')] (NominalType ''NSString''))"
    by (simp only: simp_thms) blast
  from 2 1 show ?thesis by (rule conjI)
qed

text \<open>
  C6. The linkage computed for a declaration reference is internal when the
  reference has no underlying declaration, internal when some context enclosing
  the declaration below its module is a local one, the foreign-thunk linkage when
  the enclosing module is a Clang module and the declaration is a constructor, a
  subscript or a computed property, and external for every other declaration.
\<close>

theorem getConstantLinkage_spec:
  "getConstantLinkage c = specLinkage c"
proof (cases "loc c")
  case (LocValueDecl d)
  show ?thesis
  proof (cases "walkToModule (getDeclContext d)")
    case None
    then have "inLocalScope d"
      by (simp add: inLocalScope_def walkToModule_local)
    with None LocValueDecl show ?thesis
      by (simp add: getConstantLinkage_def specLinkage_def)
  next
    case (Some m)
    then have m: "m = enclosingModule (getDeclContext d)"
      by (rule walkToModule_module)
    from Some have "\<not> inLocalScope d"
      using walkToModule_local [of "getDeclContext d"]
      by (simp add: inLocalScope_def)
    with Some m LocValueDecl show ?thesis
      by (simp add: getConstantLinkage_def specLinkage_def isForeignThunkDecl_def)
  qed
qed (simp_all add: getConstantLinkage_def specLinkage_def)

text \<open>
  C7, as amended. Emitting a function emits one default-argument generator for
  every parameter with a default initializer, under the flattened positional
  index of the parameter over the parameter lists (the fields of a tuple pattern
  count one by one), the implicit leading ``self'' list left out when the
  function is a member of a type, and it does so whether or not the function has
  a body. For a prototype nothing else is emitted; for a function with a body
  the generators come before the main body, which the curry thunks follow.
\<close>

theorem emitFunction_generator_functions:
  assumes "wellFormed s" and "emitFunction env decl fe s = Inr s'"
  shows "(feBody fe = None \<longrightarrow>
            emits env s s' (defaultArgGenerators env decl (parameterLists fe))) \<and>
         (feBody fe \<noteq> None \<longrightarrow>
            emits env s s'
              (defaultArgGenerators env decl (parameterLists fe) @
               (declRef decl, Some (FuncExprNode fe), isVoid (feResultType fe), EmitFunction fe) #
               (if locIsGetterOrSetter decl \<or> locIsInstanceMember decl \<or>
                   isPolymorphicFunctionType (loweredType (functionFor env s' (declRef decl)))
                then []
                else curryThunks fe (declRef decl) (uncurryLevel (declRef decl)))))"
proof (cases "feBody fe = None")
  case True
  with emitFunction_emits [OF assms] show ?thesis by simp
next
  case False
  then have nb: "(feBody fe = None) = False" by simp
  from emitFunction_emits [OF assms] show ?thesis by (simp add: nb)
qed

text \<open>
  A method whose second parameter has a default value, with a body and as a
  prototype: the generator is emitted under index 1 in both cases, as function 1
  of the module; the body of the method is function 2.
\<close>

theorem emitFunction_generator_functions_witness:
  "wellFormed demoModule \<and>
   emitFunction demoFrontend (LocValueDecl demoMethodDecl) demoMethod demoModule =
     Inr (projr (emitFunction demoFrontend (LocValueDecl demoMethodDecl) demoMethod demoModule)) \<and>
   feBody demoMethod \<noteq> None \<and>
   emitFunction demoFrontend (LocValueDecl demoMethodDecl) demoPrototype demoModule =
     Inr (projr (emitFunction demoFrontend (LocValueDecl demoMethodDecl) demoPrototype demoModule)) \<and>
   feBody demoPrototype = None \<and>
   emits demoFrontend demoModule
     (projr (emitFunction demoFrontend (LocValueDecl demoMethodDecl) demoMethod demoModule))
     [(getDefaultArgGenerator (LocValueDecl demoMethodDecl) 1, Some (ExprNode demoDefault), False,
       EmitGeneratorFunction (getDefaultArgGenerator (LocValueDecl demoMethodDecl) 1) demoDefault),
      (declRef (LocValueDecl demoMethodDecl), Some (FuncExprNode demoMethod), True,
       EmitFunction demoMethod)] \<and>
   emits demoFrontend demoModule
     (projr (emitFunction demoFrontend (LocValueDecl demoMethodDecl) demoPrototype demoModule))
     [(getDefaultArgGenerator (LocValueDecl demoMethodDecl) 1, Some (ExprNode demoDefault), False,
       EmitGeneratorFunction (getDefaultArgGenerator (LocValueDecl demoMethodDecl) 1) demoDefault)] \<and>
   map (emittedFunctions
          (projr (emitFunction demoFrontend (LocValueDecl demoMethodDecl) demoMethod demoModule)))
     [getDefaultArgGenerator (LocValueDecl demoMethodDecl) 1,
      declRef (LocValueDecl demoMethodDecl)] = [Some 1, Some 2] \<and>
   map blocks (tl (Mfunctions
     (projr (emitFunction demoFrontend (LocValueDecl demoMethodDecl) demoMethod demoModule)))) =
     [[[UnreachableInst None]], [[TupleInst None [], ReturnInst None EmptyTupleValue]]]"
proof -
  let ?d = "LocValueDecl demoMethodDecl"
  let ?t = "projr (emitFunction demoFrontend ?d demoMethod demoModule)"
  let ?p = "projr (emitFunction demoFrontend ?d demoPrototype demoModule)"
  have wf: "wellFormed demoModule"
    by (simp add: demoModule_def wellFormed_new)
  have ok: "emitFunction demoFrontend ?d demoMethod demoModule = Inr ?t"
    by (simp add: emitFunction_def eval_defs demo_defs)
  have ok': "emitFunction demoFrontend ?d demoPrototype demoModule = Inr ?p"
    by (simp add: emitFunction_def eval_defs demo_defs)
  have body: "feBody demoMethod \<noteq> None" and proto: "feBody demoPrototype = None"
    and void: "isVoid (feResultType demoMethod)"
    by (simp_all add: demoMethod_def demoPrototype_def isVoid_def)
  have member: "locIsInstanceMember ?d"
    by (simp add: isInstanceMember_def demoMethodDecl_def)
  have gens: "defaultArgGenerators demoFrontend ?d (parameterLists demoMethod) =
      [(getDefaultArgGenerator ?d 1, Some (ExprNode demoDefault), False,
        EmitGeneratorFunction (getDefaultArgGenerator ?d 1) demoDefault)]"
    "parameterLists demoPrototype = parameterLists demoMethod"
    by (simp_all add: defaultArgGenerators_def generatorsFrom_def flattenParams_def
        parameterLists_def demoMethod_def demoPrototype_def demoDefault_def isVoid_def
        demoFrontend_def)
  from emitFunction_generator_functions [OF wf ok, THEN conjunct2, THEN mp, OF body]
    gens void member
  have full: "emits demoFrontend demoModule ?t
     [(getDefaultArgGenerator ?d 1, Some (ExprNode demoDefault), False,
       EmitGeneratorFunction (getDefaultArgGenerator ?d 1) demoDefault),
      (declRef ?d, Some (FuncExprNode demoMethod), True, EmitFunction demoMethod)]"
    by simp
  from emitFunction_generator_functions [OF wf ok', THEN conjunct1, THEN mp, OF proto] gens
  have bare: "emits demoFrontend demoModule ?p
     [(getDefaultArgGenerator ?d 1, Some (ExprNode demoDefault), False,
       EmitGeneratorFunction (getDefaultArgGenerator ?d 1) demoDefault)]"
    by simp
  have cache: "map (emittedFunctions ?t) [getDefaultArgGenerator ?d 1, declRef ?d] =
      [Some 1, Some 2]"
    by (simp add: emitFunction_def eval_defs demo_defs)
  have bodies: "map blocks (tl (Mfunctions ?t)) =
     [[[UnreachableInst None]], [[TupleInst None [], ReturnInst None EmptyTupleValue]]]"
    by (simp add: emitFunction_def eval_defs demo_defs)
  from wf ok body ok' proto full bare cache bodies show ?thesis
    by (intro conjI)
qed

text \<open>
  C7 as stated fails: the emission of a prototype is not skipped entirely. The
  prototype of the method above leaves a generator function behind: the module
  has a second function, cached under the generator's reference, with a body.
\<close>

theorem prototype_leaves_generator:
  "feBody demoPrototype = None \<and>
   emitFunction demoFrontend (LocValueDecl demoMethodDecl) demoPrototype demoModule =
     Inr (projr (emitFunction demoFrontend (LocValueDecl demoMethodDecl) demoPrototype demoModule)) \<and>
   projr (emitFunction demoFrontend (LocValueDecl demoMethodDecl) demoPrototype demoModule) \<noteq>
     demoModule \<and>
   emittedFunctions demoModule (getDefaultArgGenerator (LocValueDecl demoMethodDecl) 1) = None \<and>
   length (Mfunctions demoModule) = 1 \<and>
   emittedFunctions
     (projr (emitFunction demoFrontend (LocValueDecl demoMethodDecl) demoPrototype demoModule))
     (getDefaultArgGenerator (LocValueDecl demoMethodDecl) 1) = Some 1 \<and>
   length (Mfunctions
     (projr (emitFunction demoFrontend (LocValueDecl demoMethodDecl) demoPrototype demoModule))) = 2 \<and>
   blocks (Mfunctions
     (projr (emitFunction demoFrontend (LocValueDecl demoMethodDecl) demoPrototype demoModule)) ! 1) =
     [[UnreachableInst None]] \<and>
   trace demoModule = [] \<and>
   trace (projr (emitFunction demoFrontend (LocValueDecl demoMethodDecl) demoPrototype demoModule)) =
     [Lowering (getDefaultArgGenerator (LocValueDecl demoMethodDecl) 1),
      RanSILGenFunction False
        (EmitGeneratorFunction (getDefaultArgGenerator (LocValueDecl demoMethodDecl) 1) demoDefault)]"
proof -
  let ?d = "LocValueDecl demoMethodDecl"
  let ?p = "projr (emitFunction demoFrontend ?d demoPrototype demoModule)"
  have proto: "feBody demoPrototype = None"
    by (simp add: demoPrototype_def)
  have ok: "emitFunction demoFrontend ?d demoPrototype demoModule = Inr ?p"
    by (simp add: emitFunction_def eval_defs demo_defs)
  have before: "emittedFunctions demoModule (getDefaultArgGenerator ?d 1) = None"
      "length (Mfunctions demoModule) = 1" "trace demoModule = []"
    by (simp_all add: eval_defs demo_defs)
  have cache: "emittedFunctions ?p (getDefaultArgGenerator ?d 1) = Some 1"
    by (simp add: emitFunction_def eval_defs demo_defs)
  have count: "length (Mfunctions ?p) = 2"
    by (simp add: emitFunction_def eval_defs demo_defs)
  have made: "blocks (Mfunctions ?p ! 1) = [[UnreachableInst None]]"
    by (simp add: emitFunction_def eval_defs demo_defs)
  have events: "trace ?p =
     [Lowering (getDefaultArgGenerator ?d 1),
      RanSILGenFunction False (EmitGeneratorFunction (getDefaultArgGenerator ?d 1) demoDefault)]"
    by (simp add: emitFunction_def eval_defs demo_defs)
  have changed: "?p \<noteq> demoModule"
  proof
    assume "?p = demoModule"
    with count before(2) show False by simp
  qed
  from proto ok changed before(1,2) cache count made before(3) events show ?thesis
    by (intro conjI)
qed

text \<open>
  C8. A top-level pattern binding is handed to the top-level function exactly
  when the insertion point of that function is valid at the time of the visit.
  Once the insertion point is invalid, every further pattern binding leaves the
  state as it is: nothing is emitted and nothing is reported.
\<close>

theorem visitPatternBindingDecl_valid_only:
  assumes "TopLevelSGF s = Some g"
  shows "(VisitedTopLevel pd \<in> set (newEvents s (visitPatternBindingDecl env pd s))) =
           hasValidInsertionPoint g \<and>
         (hasValidInsertionPoint g \<longrightarrow>
            visitPatternBindingDecl env pd s =
              s\<lparr>TopLevelSGF := Some (visitTopLevel env pd g),
                trace := trace s @ [VisitedTopLevel pd]\<rparr>) \<and>
         (\<not> hasValidInsertionPoint g \<longrightarrow>
            fold (visitPatternBindingDecl env) pds s = s)"
proof -
  have one: "\<not> hasValidInsertionPoint g \<Longrightarrow> visitPatternBindingDecl env p s = s" for p
    using assms by (simp add: visitPatternBindingDecl_def)
  have "\<not> hasValidInsertionPoint g \<Longrightarrow> fold (visitPatternBindingDecl env) pds s = s"
    by (induction pds) (simp_all add: one)
  with assms show ?thesis
    by (auto simp: visitPatternBindingDecl_def newEvents_def)
qed

text \<open>
  Three bindings, the first of which ends the top-level block: only the first is
  visited.
\<close>

theorem visitPatternBindingDecl_valid_only_witness:
  "TopLevelSGF demoModule = Some (SILGenFunction_new ((emitTopLevelFunction demoFrontend)\<lparr>debugScope := Some None\<rparr>) True) \<and>
   hasValidInsertionPoint (SILGenFunction_new ((emitTopLevelFunction demoFrontend)\<lparr>debugScope := Some None\<rparr>) True) \<and>
   VisitedTopLevel (demoBinding 1) \<in>
     set (newEvents demoModule (visitPatternBindingDecl demoFrontend (demoBinding 1) demoModule)) \<and>
   \<not> hasValidInsertionPoint
       (the (TopLevelSGF (visitPatternBindingDecl demoFrontend (demoBinding 1) demoModule))) \<and>
   fold (visitPatternBindingDecl demoFrontend) [demoBinding 2, demoBinding 3]
     (visitPatternBindingDecl demoFrontend (demoBinding 1) demoModule) =
     visitPatternBindingDecl demoFrontend (demoBinding 1) demoModule \<and>
   trace (fold (visitPatternBindingDecl demoFrontend) [demoBinding 1, demoBinding 2, demoBinding 3]
            demoModule) = [VisitedTopLevel (demoBinding 1)]"
proof -
  let ?g = "SILGenFunction_new ((emitTopLevelFunction demoFrontend)\<lparr>debugScope := Some None\<rparr>) True"
  let ?s1 = "visitPatternBindingDecl demoFrontend (demoBinding 1) demoModule"
  have top: "TopLevelSGF demoModule = Some ?g"
    by (simp add: demoModule_def SILGenModule_new_def Let_def)
  have valid: "hasValidInsertionPoint ?g"
    by (simp add: hasValidInsertionPoint_def SILGenFunction_new_def)
  from visitPatternBindingDecl_valid_only [OF top, of "demoBinding 1" demoFrontend] valid
  have 1: "VisitedTopLevel (demoBinding 1) \<in> set (newEvents demoModule ?s1)"
    and s1: "?s1 = demoModule\<lparr>TopLevelSGF := Some (visitTopLevel demoFrontend (demoBinding 1) ?g),
                trace := trace demoModule @ [VisitedTopLevel (demoBinding 1)]\<rparr>"
    by blast+
  have top1: "TopLevelSGF ?s1 = Some (?g\<lparr>B := None\<rparr>)"
    unfolding s1 by (simp add: demoFrontend_def)
  have invalid: "\<not> hasValidInsertionPoint (?g\<lparr>B := None\<rparr>)"
    by (simp add: hasValidInsertionPoint_def)
  from visitPatternBindingDecl_valid_only [OF top1, of _ demoFrontend "[demoBinding 2, demoBinding 3]"] invalid
  have 2: "fold (visitPatternBindingDecl demoFrontend) [demoBinding 2, demoBinding 3] ?s1 = ?s1"
    by blast
  have 3: "trace (fold (visitPatternBindingDecl demoFrontend)
              [demoBinding 1, demoBinding 2, demoBinding 3] demoModule) = [VisitedTopLevel (demoBinding 1)]"
  proof -
    have "fold (visitPatternBindingDecl demoFrontend)
              [demoBinding 1, demoBinding 2, demoBinding 3] demoModule =
          fold (visitPatternBindingDecl demoFrontend) [demoBinding 2, demoBinding 3] ?s1"
      by simp
    with 2 have "fold (visitPatternBindingDecl demoFrontend)
              [demoBinding 1, demoBinding 2, demoBinding 3] demoModule = ?s1"
      by simp
    moreover have "trace ?s1 = trace demoModule @ [VisitedTopLevel (demoBinding 1)]"
      by (subst s1) simp
    moreover have "trace demoModule = []"
      by (simp add: demoModule_def SILGenModule_new_def Let_def)
    ultimately show ?thesis by simp
  qed
  from top1 invalid have 4: "\<not> hasValidInsertionPoint (the (TopLevelSGF ?s1))"
    by simp
  from top valid 1 4 2 3 show ?thesis by blast
qed

text \<open>
  C9. The setter thunk of a property is emitted exactly when no function is
  cached for the reference of the getter thunk and the property is settable:
  then the setter's function is built and cached, after the getter's; otherwise
  the cache entry and the function of the setter's reference stay as they were.
  The only existence check is the one on the getter's reference: when the getter
  is cached the state is returned unchanged, whatever the cache holds for the
  setter, and when it is not, the setter is emitted without a look at its own
  entry.
\<close>

theorem emitObjCPropertyMethodThunks_functions:
  assumes "wellFormed s" and "emitObjCPropertyMethodThunks env p s = Inr s'"
  shows "emits env s s'
           (if hasFunction s (getterThunk p) then []
            else (getterThunk p, Some (VarDeclNode p), False,
                  EmitObjCPropertyGetter (getterThunk p)) #
                 (if isSettable p
                  then [(setterThunk p, Some (VarDeclNode p), False,
                         EmitObjCPropertySetter (setterThunk p))]
                  else [])) \<and>
         (\<not> hasFunction s (getterThunk p) \<and> isSettable p \<longrightarrow>
            produced env s s' (setterThunk p, Some (VarDeclNode p), False,
                               EmitObjCPropertySetter (setterThunk p))) \<and>
         (hasFunction s (getterThunk p) \<or> \<not> isSettable p \<longrightarrow>
            emittedFunctions s' (setterThunk p) = emittedFunctions s (setterThunk p) \<and>
            functionFor env s' (setterThunk p) = functionFor env s (setterThunk p)) \<and>
         (hasFunction s (getterThunk p) \<longrightarrow> s' = s)"
proof -
  let ?getter = "mkSILDeclRef (LocValueDecl p) Getter True"
  let ?setter = "mkSILDeclRef (LocValueDecl p) Setter True"
  let ?n = "Some (VarDeclNode p)"
  let ?es = "if hasFunction s ?getter then []
            else (?getter, ?n, False, EmitObjCPropertyGetter ?getter) #
                 (if isSettable p then [(?setter, ?n, False, EmitObjCPropertySetter ?setter)]
                  else [])"
  have differ: "?getter \<noteq> ?setter" by (simp add: mkSILDeclRef_def)
  have skip: "hasFunction s ?getter \<longrightarrow> s' = s"
    using assms(2) by (auto simp: emitObjCPropertyMethodThunks_def Let_def)
  have e: "emits env s s' ?es"
  proof (cases "hasFunction s ?getter")
    case True
    with skip assms(1) show ?thesis by (simp add: emits_Nil)
  next
    case False
    from emitObjCPropertyMethodThunks_steps [OF assms(2) False] obtain s3 where
      getter: "bindE (preEmitFunction env ?getter ?n s)
       (\<lambda>(f, s1). bindE (runSILGenFunction env f False (EmitObjCPropertyGetter ?getter) s1)
         (postEmitFunction env ?getter f)) = Inr s3" and
      setter: "if isSettable p
      then bindE (preEmitFunction env ?setter ?n s3)
       (\<lambda>(f, s1). bindE (runSILGenFunction env f False (EmitObjCPropertySetter ?setter) s1)
         (postEmitFunction env ?setter f)) = Inr s'
      else s' = s3"
      by blast
    note e1 = protocol_emits' [OF assms(1) getter]
    show ?thesis
    proof (cases "isSettable p")
      case True
      with setter have "bindE (preEmitFunction env ?setter ?n s3)
       (\<lambda>(f, s1). bindE (runSILGenFunction env f False (EmitObjCPropertySetter ?setter) s1)
         (postEmitFunction env ?setter f)) = Inr s'"
        by simp
      note e2 = protocol_emits' [OF emits_wellFormed [OF e1] this]
      have "emits env s s' ([(?getter, ?n, False, EmitObjCPropertyGetter ?getter)] @
                            [(?setter, ?n, False, EmitObjCPropertySetter ?setter)])"
        by (rule emits_append [OF e1 e2]) (use differ in simp)
      with True False show ?thesis by simp
    next
      case unset: False
      with setter e1 False show ?thesis by simp
    qed
  qed
  have made: "\<not> hasFunction s ?getter \<and> isSettable p \<longrightarrow>
      produced env s s' (?setter, ?n, False, EmitObjCPropertySetter ?setter)"
    using e by (auto dest: emits_produced)
  have "?setter \<notin> fst ` set ?es" if "hasFunction s ?getter \<or> \<not> isSettable p"
    using that differ by auto
  with e have kept: "hasFunction s ?getter \<or> \<not> isSettable p \<longrightarrow>
      emittedFunctions s' ?setter = emittedFunctions s ?setter \<and>
      functionFor env s' ?setter = functionFor env s ?setter"
    by (blast dest: emits_untouched)
  from e made kept skip show ?thesis by (intro conjI)
qed

text \<open>
  A settable property: the first request emits the getter thunk and the setter
  thunk as the functions 1 and 2 of the module, the second one finds the getter
  cached and emits nothing.
\<close>

theorem emitObjCPropertyMethodThunks_functions_witness:
  "wellFormed demoModule \<and>
   emitObjCPropertyMethodThunks demoFrontend demoProperty demoModule =
     Inr (projr (emitObjCPropertyMethodThunks demoFrontend demoProperty demoModule)) \<and>
   \<not> hasFunction demoModule (getterThunk demoProperty) \<and>
   isSettable demoProperty \<and>
   emits demoFrontend demoModule
     (projr (emitObjCPropertyMethodThunks demoFrontend demoProperty demoModule))
     [(getterThunk demoProperty, Some (VarDeclNode demoProperty), False,
       EmitObjCPropertyGetter (getterThunk demoProperty)),
      (setterThunk demoProperty, Some (VarDeclNode demoProperty), False,
       EmitObjCPropertySetter (setterThunk demoProperty))] \<and>
   produced demoFrontend demoModule
     (projr (emitObjCPropertyMethodThunks demoFrontend demoProperty demoModule))
     (setterThunk demoProperty, Some (VarDeclNode demoProperty), False,
      EmitObjCPropertySetter (setterThunk demoProperty)) \<and>
   map (emittedFunctions (projr (emitObjCPropertyMethodThunks demoFrontend demoProperty demoModule)))
     [getterThunk demoProperty, setterThunk demoProperty] = [Some 1, Some 2] \<and>
   map blocks (tl (Mfunctions
     (projr (emitObjCPropertyMethodThunks demoFrontend demoProperty demoModule)))) =
     [[[UnreachableInst None]], [[UnreachableInst None]]] \<and>
   wellFormed (projr (emitObjCPropertyMethodThunks demoFrontend demoProperty demoModule)) \<and>
   hasFunction (projr (emitObjCPropertyMethodThunks demoFrontend demoProperty demoModule))
     (getterThunk demoProperty) \<and>
   emitObjCPropertyMethodThunks demoFrontend demoProperty
     (projr (emitObjCPropertyMethodThunks demoFrontend demoProperty demoModule)) =
     Inr (projr (emitObjCPropertyMethodThunks demoFrontend demoProperty demoModule)) \<and>
   emits demoFrontend
     (projr (emitObjCPropertyMethodThunks demoFrontend demoProperty demoModule))
     (projr (emitObjCPropertyMethodThunks demoFrontend demoProperty demoModule)) []"
proof -
  let ?t = "projr (emitObjCPropertyMethodThunks demoFrontend demoProperty demoModule)"
  let ?getter = "mkSILDeclRef (LocValueDecl demoProperty) Getter True"
  let ?setter = "mkSILDeclRef (LocValueDecl demoProperty) Setter True"
  have wf: "wellFormed demoModule"
    by (simp add: demoModule_def wellFormed_new)
  have ok: "emitObjCPropertyMethodThunks demoFrontend demoProperty demoModule = Inr ?t"
    by (simp add: emitObjCPropertyMethodThunks_def eval_defs demo_defs)
  have fresh: "\<not> hasFunction demoModule ?getter"
    by (simp add: eval_defs demo_defs)
  have settable: "isSettable demoProperty"
    by (simp add: isSettable_def demoProperty_def)
  note first = emitObjCPropertyMethodThunks_functions [OF wf ok]
  from first [THEN conjunct1] fresh settable
  have made: "emits demoFrontend demoModule ?t
     [(?getter, Some (VarDeclNode demoProperty), False, EmitObjCPropertyGetter ?getter),
      (?setter, Some (VarDeclNode demoProperty), False, EmitObjCPropertySetter ?setter)]"
    by simp
  from fresh settable have "\<not> hasFunction demoModule ?getter \<and> isSettable demoProperty" ..
  from first [THEN conjunct2, THEN conjunct1, THEN mp, OF this]
  have setter: "produced demoFrontend demoModule ?t
     (?setter, Some (VarDeclNode demoProperty), False, EmitObjCPropertySetter ?setter)" .
  have cache: "map (emittedFunctions ?t) [?getter, ?setter] = [Some 1, Some 2]"
    by (simp add: emitObjCPropertyMethodThunks_def eval_defs demo_defs)
  have bodies: "map blocks (tl (Mfunctions ?t)) =
     [[[UnreachableInst None]], [[UnreachableInst None]]]"
    by (simp add: emitObjCPropertyMethodThunks_def eval_defs demo_defs)
  from made have wf': "wellFormed ?t"
    by (simp add: emits_def)
  have known: "hasFunction ?t ?getter"
    by (simp add: emitObjCPropertyMethodThunks_def eval_defs demo_defs)
  then have again: "emitObjCPropertyMethodThunks demoFrontend demoProperty ?t = Inr ?t"
    by (simp add: emitObjCPropertyMethodThunks_def Let_def)
  from emitObjCPropertyMethodThunks_functions [OF wf' again, THEN conjunct1] known
  have idle: "emits demoFrontend ?t ?t []"
    by simp
  from wf ok fresh settable made setter cache bodies wf' known again idle show ?thesis
    by (intro conjI)
qed

text \<open>
  C10. After \<open>getFunction\<close> has been called for a reference, \<open>hasFunction\<close>
  holds for it and every later \<open>getFunction\<close> for it, also after calls for other
  references, returns the same function pointer; calling it again at once leaves
  the state unchanged. The entry exists before any body: the function created
  for a reference that was not cached is a bare declaration.
\<close>

theorem getFunction_cached:
  assumes "getFunction env r s = (f, s1)"
  shows "hasFunction s1 r \<and> getFunction env r s1 = (f, s1) \<and>
         fst (getFunction env r (fold (\<lambda>q t. snd (getFunction env q t)) qs s1)) = f \<and>
         (\<not> hasFunction s r \<longrightarrow> blocks (Mfunctions s1 ! f) = [])"
proof -
  from assms have reg: "emittedFunctions s1 r = Some f"
    by (rule getFunction_registers)
  then have "hasFunction s1 r"
    by (simp add: hasFunction_def)
  moreover from reg have "getFunction env r s1 = (f, s1)"
    by (rule getFunction_hit)
  moreover have "fst (getFunction env r (fold (\<lambda>q t. snd (getFunction env q t)) qs s1)) = f"
    using getFunction_fold_keeps [OF reg, of env qs] by (simp add: getFunction_hit)
  moreover have "\<not> hasFunction s r \<longrightarrow> blocks (Mfunctions s1 ! f) = []"
    using assms by (simp add: getFunction_fresh)
  ultimately show ?thesis by simp
qed

text \<open>A closure reference on the fresh module: the function at position 1.\<close>

theorem getFunction_cached_witness:
  "\<not> hasFunction demoModule (declRef (LocClosureExpr demoClosure)) \<and>
   fst (getFunction demoFrontend (declRef (LocClosureExpr demoClosure)) demoModule) = 1 \<and>
   hasFunction (snd (getFunction demoFrontend (declRef (LocClosureExpr demoClosure)) demoModule))
     (declRef (LocClosureExpr demoClosure)) \<and>
   fst (getFunction demoFrontend (declRef (LocClosureExpr demoClosure))
         (fold (\<lambda>q t. snd (getFunction demoFrontend q t))
            [declRef (LocValueDecl demoProperty), declRef (LocClosureExpr demoClosure)]
            (snd (getFunction demoFrontend (declRef (LocClosureExpr demoClosure)) demoModule)))) = 1 \<and>
   blocks (Mfunctions (snd (getFunction demoFrontend (declRef (LocClosureExpr demoClosure)) demoModule)) ! 1) = []"
proof -
  let ?r = "declRef (LocClosureExpr demoClosure)"
  let ?s1 = "snd (getFunction demoFrontend ?r demoModule)"
  have run: "getFunction demoFrontend ?r demoModule = (1, ?s1)"
    by (simp add: eval_defs demo_defs)
  have fresh: "\<not> hasFunction demoModule ?r"
    by (simp add: eval_defs demo_defs)
  have first: "fst (getFunction demoFrontend ?r demoModule) = 1"
    by (simp add: eval_defs demo_defs)
  note registered = getFunction_cached [OF run, of "[declRef (LocValueDecl demoProperty), ?r]"]
  from registered have "hasFunction ?s1 ?r" by (rule conjunct1)
  moreover from registered have "fst (getFunction demoFrontend ?r
         (fold (\<lambda>q t. snd (getFunction demoFrontend q t))
            [declRef (LocValueDecl demoProperty), ?r] ?s1)) = 1"
    by blast
  moreover from registered fresh have "blocks (Mfunctions ?s1 ! 1) = []"
    by blast
  ultimately show ?thesis using fresh first by blast
qed

end
